theory Spec2Isabelle
  imports Complex_Main "HOL-Library.Sublist"
begin

chapter \<open>Sahayak Word add-in: response reconciliation and admission control\<close>

text \<open>
  A shallow embedding of the JavaScript back end of the add-in.  Two variants of the
  validation service exist in the repository: \<^verbatim>\<open>lib/llmService.js\<close> (offset-form
  locations, processing version 1.0) and a second \<^verbatim>\<open>llmService.js\<close> (paragraph-form
  locations, processing version 2.0).  Names of the second variant carry the suffix
  \<open>_v2\<close>.  The rate limiter is \<^verbatim>\<open>lib/rateLimit.js\<close> (lines 1-117); the request
  validation \<^verbatim>\<open>validateRequest\<close>, imported from \<^verbatim>\<open>lib/utils.js\<close>, stands in the
  same source file (lines 141-191); the transport handler is the serverless function
  for document analysis.

  Conventions of the embedding.
  \<^item> A JavaScript string is a list of code units; \<open>length\<close> counts them as
    \<^verbatim>\<open>.length\<close> does.  The matcher is polymorphic in the type of the units, the
    records use \<open>string\<close>.  The code only compares units for equality and counts them.
  \<^item> Integers of the JSON payload and clock readings are \<open>int\<close>; counters are \<open>nat\<close>.
  \<^item> A thrown exception is a value: per finding an outcome \<open>Threw\<close>, for the analysis
    a sum type whose left injection carries the error object.
  \<^item> The external collaborators (the model call, \<^verbatim>\<open>JSON.parse\<close>, the clock, the random
    source) are parameters of the functions that use them.  The calls made to the model
    are returned as a list next to the result.
\<close>

section \<open>Definitions\<close>

subsection \<open>Edit distance as the specification states it\<close>

text \<open>
  One edit changes a string by inserting, deleting or substituting one unit at any
  position.  \<open>edits n xs ys\<close> holds when \<open>n\<close> such edits lead from \<open>xs\<close> to \<open>ys\<close>,
  and the edit distance is the least such \<open>n\<close>.  No unit is folded, trimmed or skipped.
\<close>

inductive edit1 :: "'a list \<Rightarrow> 'a list \<Rightarrow> bool" where
  ins: "edit1 (u @ v) (u @ a # v)"
| del: "edit1 (u @ a # v) (u @ v)"
| sub: "edit1 (u @ a # v) (u @ b # v)"

inductive edits :: "nat \<Rightarrow> 'a list \<Rightarrow> 'a list \<Rightarrow> bool" where
  edits_refl: "edits 0 xs xs"
| edits_step: "edit1 xs ys \<Longrightarrow> edits n ys zs \<Longrightarrow> edits (Suc n) xs zs"

definition edit_distance :: "'a list \<Rightarrow> 'a list \<Rightarrow> nat" where
  "edit_distance xs ys = (LEAST n. edits n xs ys)"

text \<open>
  The similarity ratio in the words of the specification:
  \<open>(max(len a, len b) - editDistance(a, b)) / max(len a, len b)\<close>.
\<close>

definition similarity :: "'a list \<Rightarrow> 'a list \<Rightarrow> rat" where
  "similarity a b =
     (of_nat (max (length a) (length b)) - of_nat (edit_distance a b))
       / of_nat (max (length a) (length b))"

text \<open>The textbook recursion for the distance, used to evaluate and to reason.\<close>

fun lev_rec :: "'a list \<Rightarrow> 'a list \<Rightarrow> nat" where
  "lev_rec [] ys = length ys"
| "lev_rec (x # xs) [] = Suc (length xs)"
| "lev_rec (x # xs) (y # ys) =
     min (lev_rec xs ys + (if x = y then 0 else 1))
         (min (lev_rec xs (y # ys) + 1) (lev_rec (x # xs) ys + 1))"

subsection \<open>The matcher: \<^verbatim>\<open>levenshteinDistance\<close> and \<^verbatim>\<open>fuzzyMatch\<close>\<close>

text \<open>
  \<^verbatim>\<open>levenshteinDistance(str1, str2)\<close> (llmService.js, lines 297-323) fills a matrix
  held in an array of arrays.  The matrix is modelled as a partial map from (row, column)
  to the stored number; a cell never written reads as \<open>None\<close> (\<^verbatim>\<open>undefined\<close>), and
  arithmetic on such a cell yields \<open>None\<close> (\<^verbatim>\<open>NaN\<close>).

  \<^item> \<open>new_row i v\<close> is \<^verbatim>\<open>matrix[i] = [v]\<close>: row \<open>i\<close> becomes a fresh array whose only
    element is \<open>v\<close>.
  \<^item> \<open>set_cell i j v\<close> is \<^verbatim>\<open>matrix[i][j] = v\<close>.
  \<^item> \<open>lev_cell\<close> is the body of the inner loop; \<^verbatim>\<open>charAt(i - 1)\<close> is \<open>! (i - 1)\<close>,
    read only for \<open>1 \<le> i \<le> length\<close>.
  \<^item> A loop \<^verbatim>\<open>for (k = a; k <= b; k++)\<close> is a \<open>fold\<close> over \<open>[a..<Suc b]\<close>.
\<close>

type_synonym matrix = "nat \<times> nat \<Rightarrow> nat option"

definition new_row :: "nat \<Rightarrow> nat \<Rightarrow> matrix \<Rightarrow> matrix" where
  "new_row i v m = (\<lambda>(r, c). if r = i then (if c = 0 then Some v else None) else m (r, c))"

definition set_cell :: "nat \<Rightarrow> nat \<Rightarrow> nat option \<Rightarrow> matrix \<Rightarrow> matrix" where
  "set_cell i j v m = m((i, j) := v)"

definition js_succ :: "nat option \<Rightarrow> nat option" where
  "js_succ v = map_option Suc v"

definition js_min3 :: "nat option \<Rightarrow> nat option \<Rightarrow> nat option \<Rightarrow> nat option" where
  "js_min3 a b c =
     (case (a, b, c) of (Some x, Some y, Some z) \<Rightarrow> Some (min x (min y z)) | _ \<Rightarrow> None)"

definition lev_cell :: "'a list \<Rightarrow> 'a list \<Rightarrow> nat \<Rightarrow> nat \<Rightarrow> matrix \<Rightarrow> matrix" where
  "lev_cell str1 str2 i j m =
     (if str2 ! (i - 1) = str1 ! (j - 1)
      then set_cell i j (m (i - 1, j - 1)) m
      else set_cell i j
             (js_min3 (js_succ (m (i - 1, j - 1)))
                      (js_succ (m (i, j - 1)))
                      (js_succ (m (i - 1, j)))) m)"

definition levenshteinDistance :: "'a list \<Rightarrow> 'a list \<Rightarrow> nat option" where
  "levenshteinDistance str1 str2 =
     (let m1 = fold (\<lambda>i. new_row i i) [0..<Suc (length str2)] (\<lambda>_. None);
          m2 = fold (\<lambda>j. set_cell 0 j (Some j)) [0..<Suc (length str1)] m1;
          m3 = fold (\<lambda>i. fold (\<lambda>j. lev_cell str1 str2 i j) [1..<Suc (length str1)])
                 [1..<Suc (length str2)] m2
      in m3 (length str2, length str1))"

text \<open>
  \<^verbatim>\<open>fuzzyMatch(str1, str2, threshold = 0.8)\<close> (llmService.js, lines 284-295).  The
  quotient is a rational number.  In the code it is a double compared with the double
  nearest to the threshold; for the policy threshold \<open>8 / 10\<close> and strings shorter than
  \<open>2 ^ 31\<close> units both comparisons agree, since a quotient \<open>k / n\<close> below \<open>4 / 5\<close>
  lies at least \<open>1 / (5 * n)\<close> below it.  A distance that is \<^verbatim>\<open>NaN\<close> compares false.
\<close>

definition fuzzyMatch :: "'a list \<Rightarrow> 'a list \<Rightarrow> rat \<Rightarrow> bool" where
  "fuzzyMatch str1 str2 threshold =
     (if length str1 = 0 \<or> length str2 = 0 then False
      else
        let longer = (if length str1 > length str2 then str1 else str2);
            shorter = (if length str1 > length str2 then str2 else str1)
        in if length longer = 0 then True
           else (case levenshteinDistance longer shorter of
                   None \<Rightarrow> False
                 | Some d \<Rightarrow>
                     let ratio = (of_nat (length longer) - of_nat d) / of_nat (length longer)
                     in ratio \<ge> threshold))"

text \<open>Auxiliary notions for the verification of the matrix loops.\<close>

definition cellv :: "'a list \<Rightarrow> 'a list \<Rightarrow> nat \<Rightarrow> nat \<Rightarrow> nat" where
  "cellv str1 str2 i j = lev_rec (take i str2) (take j str1)"

definition filled :: "'a list \<Rightarrow> 'a list \<Rightarrow> nat \<Rightarrow> nat \<Rightarrow> matrix \<Rightarrow> bool" where
  "filled str1 str2 i j m =
     (\<forall>r c. r \<le> length str2 \<and> c \<le> length str1 \<and> (r < i \<or> c = 0 \<or> (r = i \<and> c < j))
        \<longrightarrow> m (r, c) = Some (cellv str1 str2 r c))"

subsection \<open>Findings and the offset-form validator (processing version 1.0)\<close>

text \<open>
  A finding as parsed from the model's reply.  Fields the validator reads or writes are
  optional where the reply may omit them: \<open>issue_id\<close> is \<^verbatim>\<open>issue.id\<close>,
  \<open>location = None\<close> is a finding without \<^verbatim>\<open>location\<close>.  The remaining fields of a
  finding (title, description, fix, ...) are carried along unread.  The type of the
  location is a parameter: \<open>location\<close> for the offset form, \<open>location_v2\<close> for the
  paragraph form.
\<close>

record location =
  startIndex :: int
  endIndex :: int
  exactText :: "string option"

record 'l issue =
  issue_id :: "string option"
  severity :: "string option"
  autoFixable :: "bool option"
  location :: "'l option"

record summary =
  totalIssues :: nat
  critical :: nat
  warnings :: nat
  suggestions :: nat
  documentLength :: int

text \<open>The parsed reply \<^verbatim>\<open>analysisResult\<close>: its own summary and its findings.\<close>

record 'l analysis =
  ar_summary :: "summary option"
  ar_issues :: "'l issue list option"

record stats =
  original :: nat
  validated :: nat
  indexErrors :: nat
  textMismatches :: nat

text \<open>
  The value \<^verbatim>\<open>validateAndProcessResults\<close> returns.  Its \<^verbatim>\<open>meta\<close> field (model name,
  time stamp, processing version) depends on the environment only and is left out.
\<close>

record ('l, 's) processed =
  summary :: summary
  issues :: "'l issue list"
  validationStats :: 's

text \<open>
  \<^verbatim>\<open>String.prototype.substring(a, b)\<close>: both indices are clamped to the string and
  swapped when out of order.
\<close>

definition substring :: "'a list \<Rightarrow> int \<Rightarrow> int \<Rightarrow> 'a list" where
  "substring s a b =
     (let n = int (length s);
          a' = max 0 (min a n);
          b' = max 0 (min b n);
          lo = min a' b';
          hi = max a' b'
      in take (nat (hi - lo)) (drop (nat lo) s))"

text \<open>
  Lines 250-251 of llmService.js: \<^verbatim>\<open>issue.id = issue.id || fresh\<close>, where \<open>fresh\<close>
  stands for the identifier built from the clock and the random source, and
  \<^verbatim>\<open>autoFixable\<close> defaults to \<^verbatim>\<open>false\<close>.  An empty identifier is falsy.
\<close>

definition ensure_fields :: "string \<Rightarrow> 'l issue \<Rightarrow> 'l issue" where
  "ensure_fields fresh issue =
     issue\<lparr>issue_id := (case issue_id issue of
                            None \<Rightarrow> Some fresh
                          | Some i \<Rightarrow> if i = [] then Some fresh else Some i),
            autoFixable := (case autoFixable issue of None \<Rightarrow> Some False | Some b \<Rightarrow> Some b)\<rparr>"

text \<open>
  What one pass of the loop over the findings does (llmService.js, lines 219-258).
  \<open>Threw\<close> is the path through the \<^verbatim>\<open>catch\<close> clause: reading a field of a missing
  location, or the length of a missing \<^verbatim>\<open>exactText\<close> inside \<^verbatim>\<open>fuzzyMatch\<close>, raises a
  \<^verbatim>\<open>TypeError\<close>; the finding is then dropped and no counter changes.
\<close>

datatype 'a outcome = Accepted 'a | IndexError | TextMismatch | Threw

definition check_issue :: "string \<Rightarrow> string \<Rightarrow> location issue \<Rightarrow> location issue outcome" where
  "check_issue fresh originalText issue =
     (case location issue of
        None \<Rightarrow> Threw
      | Some loc \<Rightarrow>
          if startIndex loc < 0 \<or> endIndex loc > int (length originalText)
               \<or> startIndex loc \<ge> endIndex loc
          then IndexError
          else
            let actualText = substring originalText (startIndex loc) (endIndex loc)
            in if Some actualText \<noteq> exactText loc
               then (case exactText loc of
                       None \<Rightarrow> Threw
                     | Some quoted \<Rightarrow>
                         if fuzzyMatch actualText quoted (8 / 10)
                         then Accepted (ensure_fields fresh
                                (issue\<lparr>location := Some (loc\<lparr>exactText := Some actualText\<rparr>)\<rparr>))
                         else TextMismatch)
               else Accepted (ensure_fields fresh issue))"

text \<open>
  The loop itself, with its two accumulators.  \<open>fresh k\<close> is the identifier the
  environment would supply for the finding at position \<open>k\<close>.
\<close>

fun validate_loop ::
  "(nat \<Rightarrow> string) \<Rightarrow> string \<Rightarrow> nat \<Rightarrow> location issue list
     \<Rightarrow> location issue list \<times> stats \<Rightarrow> location issue list \<times> stats" where
  "validate_loop fresh originalText k [] acc = acc"
| "validate_loop fresh originalText k (issue # rest) (validatedIssues, st) =
     validate_loop fresh originalText (Suc k) rest
       (case check_issue (fresh k) originalText issue of
          Accepted issue' \<Rightarrow> (validatedIssues @ [issue'], st\<lparr>validated := validated st + 1\<rparr>)
        | IndexError \<Rightarrow> (validatedIssues, st\<lparr>indexErrors := indexErrors st + 1\<rparr>)
        | TextMismatch \<Rightarrow> (validatedIssues, st\<lparr>textMismatches := textMismatches st + 1\<rparr>)
        | Threw \<Rightarrow> (validatedIssues, st))"

text \<open>Lines 262-268: the summary built from the validated findings.\<close>

definition summarize :: "'l issue list \<Rightarrow> int \<Rightarrow> summary" where
  "summarize validatedIssues len =
     \<lparr>totalIssues = length validatedIssues,
      critical = length (filter (\<lambda>i. severity i = Some ''Critical'') validatedIssues),
      warnings = length (filter (\<lambda>i. severity i = Some ''Warning'') validatedIssues),
      suggestions = length (filter (\<lambda>i. severity i = Some ''Suggestion'') validatedIssues),
      documentLength = len\<rparr>"

definition validateAndProcessResults ::
  "(nat \<Rightarrow> string) \<Rightarrow> location analysis \<Rightarrow> string \<Rightarrow> (location, stats) processed" where
  "validateAndProcessResults fresh analysisResult originalText =
     (let issues0 = (case ar_issues analysisResult of None \<Rightarrow> [] | Some is \<Rightarrow> is);
          st0 = \<lparr>original = length issues0, validated = 0, indexErrors = 0, textMismatches = 0\<rparr>;
          (validatedIssues, st) = validate_loop fresh originalText 0 issues0 ([], st0)
      in \<lparr>summary = summarize validatedIssues (int (length originalText)),
          issues = validatedIssues,
          validationStats = st\<rparr>)"

text \<open>The outcomes of a list of findings in order, and the findings an outcome keeps.\<close>

definition outcomes ::
  "(nat \<Rightarrow> string) \<Rightarrow> string \<Rightarrow> nat \<Rightarrow> location issue list \<Rightarrow> location issue outcome list" where
  "outcomes fresh originalText k is =
     map (\<lambda>(n, issue). check_issue (fresh n) originalText issue) (enumerate k is)"

fun kept_of :: "'a outcome \<Rightarrow> 'a list" where
  "kept_of (Accepted x) = [x]"
| "kept_of IndexError = []"
| "kept_of TextMismatch = []"
| "kept_of Threw = []"

subsection \<open>The paragraph-form validator (processing version 2.0)\<close>

text \<open>
  A value of the request or of a document whose type the code does not fix: \<open>Nullish\<close>
  is \<^verbatim>\<open>undefined\<close> or \<^verbatim>\<open>null\<close>, \<open>Str s\<close> a string, \<open>Other t n\<close> any other value with
  its truthiness \<open>t\<close> and what its \<^verbatim>\<open>length\<close> property reads as (\<open>None\<close> when it reads
  as \<^verbatim>\<open>undefined\<close>).
\<close>

datatype jsval = Nullish | Str string | Other bool "int option"

fun truthy :: "jsval \<Rightarrow> bool" where
  "truthy Nullish = False"
| "truthy (Str s) = (s \<noteq> [])"
| "truthy (Other b n) = b"

fun js_length :: "jsval \<Rightarrow> int option" where
  "js_length Nullish = None"
| "js_length (Str s) = Some (int (length s))"
| "js_length (Other b n) = n"

text \<open>
  A paragraph record carries its text (\<open>par_text\<close>) besides formatting data no function
  here reads.  The \<^verbatim>\<open>paragraphs\<close> property of a document is \<open>NoParagraphs\<close> when it is
  \<^verbatim>\<open>undefined\<close> or \<^verbatim>\<open>null\<close>, \<open>Paragraphs ps\<close> when it is an array, and
  \<open>NotArray n\<close> for any other value, \<open>n\<close> being what its \<^verbatim>\<open>length\<close> property reads
  as (\<open>None\<close> when it reads as \<^verbatim>\<open>undefined\<close>).
\<close>

record para =
  par_text :: string

datatype par_field = NoParagraphs | NotArray "int option" | Paragraphs "para list"

fun is_array :: "par_field \<Rightarrow> bool" where
  "is_array NoParagraphs = False"
| "is_array (NotArray n) = False"
| "is_array (Paragraphs ps) = True"

record document =
  fullText :: jsval
  paragraphs :: par_field

record location_v2 =
  paragraphIndex :: "int option"
  searchableText :: "string option"

record stats_v2 =
  original_v2 :: nat
  validated_v2 :: nat
  invalidParagraphIndex :: nat
  missingSearchableText :: nat

text \<open>
  One pass of the loop of the second variant (lines 214-242).  The index is read with
  \<^verbatim>\<open>issue.location?.paragraphIndex\<close>.  Reading
  \<^verbatim>\<open>documentStructure.paragraphs.length\<close> raises when \<^verbatim>\<open>paragraphs\<close> is
  \<^verbatim>\<open>undefined\<close> or \<^verbatim>\<open>null\<close>, which the \<^verbatim>\<open>catch\<close> clause swallows; on a value
  without a \<^verbatim>\<open>length\<close> the comparison with \<^verbatim>\<open>undefined\<close> is false and the index
  passes.  \<open>check_searchable\<close> is the second test, lines 225-237.
\<close>

datatype 'a outcome_v2 =
  Accepted_v2 'a | InvalidParagraphIndex | MissingSearchableText | Threw_v2

definition check_searchable :: "string \<Rightarrow> location_v2 issue \<Rightarrow> location_v2 issue outcome_v2" where
  "check_searchable fresh issue =
     (case (case location issue of None \<Rightarrow> None | Some loc \<Rightarrow> searchableText loc) of
        None \<Rightarrow> MissingSearchableText
      | Some t \<Rightarrow>
          if t = [] then MissingSearchableText
          else Accepted_v2 (ensure_fields fresh issue))"

definition check_issue_v2 ::
  "string \<Rightarrow> document \<Rightarrow> location_v2 issue \<Rightarrow> location_v2 issue outcome_v2" where
  "check_issue_v2 fresh documentStructure issue =
     (let pix_opt = (case location issue of None \<Rightarrow> None | Some loc \<Rightarrow> paragraphIndex loc)
      in case pix_opt of
           None \<Rightarrow> InvalidParagraphIndex
         | Some pix \<Rightarrow>
             if pix < 0 then InvalidParagraphIndex
             else (case paragraphs documentStructure of
                     NoParagraphs \<Rightarrow> Threw_v2
                   | NotArray len \<Rightarrow>
                       if (case len of None \<Rightarrow> False | Some n \<Rightarrow> pix \<ge> n)
                       then InvalidParagraphIndex
                       else check_searchable fresh issue
                   | Paragraphs ps \<Rightarrow>
                       if pix \<ge> int (length ps) then InvalidParagraphIndex
                       else check_searchable fresh issue))"

fun validate_loop_v2 ::
  "(nat \<Rightarrow> string) \<Rightarrow> document \<Rightarrow> nat \<Rightarrow> location_v2 issue list
     \<Rightarrow> location_v2 issue list \<times> stats_v2 \<Rightarrow> location_v2 issue list \<times> stats_v2" where
  "validate_loop_v2 fresh documentStructure k [] acc = acc"
| "validate_loop_v2 fresh documentStructure k (issue # rest) (validatedIssues, st) =
     validate_loop_v2 fresh documentStructure (Suc k) rest
       (case check_issue_v2 (fresh k) documentStructure issue of
          Accepted_v2 issue' \<Rightarrow>
            (validatedIssues @ [issue'], st\<lparr>validated_v2 := validated_v2 st + 1\<rparr>)
        | InvalidParagraphIndex \<Rightarrow>
            (validatedIssues, st\<lparr>invalidParagraphIndex := invalidParagraphIndex st + 1\<rparr>)
        | MissingSearchableText \<Rightarrow>
            (validatedIssues, st\<lparr>missingSearchableText := missingSearchableText st + 1\<rparr>)
        | Threw_v2 \<Rightarrow> (validatedIssues, st))"

definition validateAndProcessResults_v2 ::
  "(nat \<Rightarrow> string) \<Rightarrow> location_v2 analysis \<Rightarrow> document
     \<Rightarrow> (location_v2, stats_v2) processed" where
  "validateAndProcessResults_v2 fresh analysisResult documentStructure =
     (let issues0 = (case ar_issues analysisResult of None \<Rightarrow> [] | Some is \<Rightarrow> is);
          st0 = \<lparr>original_v2 = length issues0, validated_v2 = 0,
                 invalidParagraphIndex = 0, missingSearchableText = 0\<rparr>;
          (validatedIssues, st) = validate_loop_v2 fresh documentStructure 0 issues0 ([], st0)
      in \<lparr>summary = summarize validatedIssues
                      (case js_length (fullText documentStructure) of
                         None \<Rightarrow> 0 | Some n \<Rightarrow> n),
          issues = validatedIssues,
          validationStats = st\<rparr>)"

text \<open>The outcomes of a list of findings of the second variant, in order.\<close>

definition outcomes_v2 ::
  "(nat \<Rightarrow> string) \<Rightarrow> document \<Rightarrow> nat \<Rightarrow> location_v2 issue list
     \<Rightarrow> location_v2 issue outcome_v2 list" where
  "outcomes_v2 fresh documentStructure k is =
     map (\<lambda>(n, issue). check_issue_v2 (fresh n) documentStructure issue) (enumerate k is)"

fun kept_of_v2 :: "'a outcome_v2 \<Rightarrow> 'a list" where
  "kept_of_v2 (Accepted_v2 x) = [x]"
| "kept_of_v2 InvalidParagraphIndex = []"
| "kept_of_v2 MissingSearchableText = []"
| "kept_of_v2 Threw_v2 = []"

subsection \<open>The analysis: size check, model call, parsing, validation\<close>

text \<open>
  An error object with the properties the code inspects.  \<^verbatim>\<open>new Error(msg)\<close> has a
  message and neither \<^verbatim>\<open>type\<close> nor \<^verbatim>\<open>code\<close>.
\<close>

record js_error =
  message :: string
  type :: "string option"
  code :: "string option"

definition new_Error :: "string \<Rightarrow> js_error" where
  "new_Error msg = \<lparr>message = msg, type = None, code = None\<rparr>"

text \<open>
  \<^verbatim>\<open>content.match(/\{[\s\S]*\}/)\<close>: the leftmost match starts at the first opening
  brace, and the greedy star ends it at the last closing brace behind that one.  No
  closing brace behind the first opening brace means no match at all, since every later
  start has fewer closing braces behind it.  \<open>jsonText\<close> is line 163:
  \<^verbatim>\<open>jsonMatch ? jsonMatch[0] : content\<close>.
\<close>

definition json_match :: "string \<Rightarrow> string option" where
  "json_match content =
     (let from_open = dropWhile (\<lambda>c. c \<noteq> CHR ''{'') content
      in if from_open = [] then None
         else if CHR ''}'' \<notin> set (tl from_open) then None
         else Some (rev (dropWhile (\<lambda>c. c \<noteq> CHR ''}'') (rev from_open))))"

definition jsonText :: "string \<Rightarrow> string" where
  "jsonText content = (case json_match content of Some m \<Rightarrow> m | None \<Rightarrow> content)"

text \<open>\<^verbatim>\<open>s.includes(t)\<close>: \<open>t\<close> occurs in \<open>s\<close> as a contiguous piece.\<close>

definition includes_str :: "string \<Rightarrow> string \<Rightarrow> bool" where
  "includes_str s t = sublist t s"

text \<open>
  The \<^verbatim>\<open>catch\<close> clause of \<^verbatim>\<open>analyzeDocument\<close> (lines 177-191): whatever was thrown
  in the body is replaced by a new error built from a message alone.
\<close>

definition catch_rethrow :: "js_error \<Rightarrow> js_error" where
  "catch_rethrow error =
     (if type error = Some ''rate_limit_error''
        then new_Error ''Rate limit exceeded. Please wait and try again.''
      else if type error = Some ''authentication_error''
        then new_Error ''Invalid API key. Please check your Anthropic API key.''
      else if type error = Some ''overloaded_error''
        then new_Error ''Claude is overloaded. Please try again in a moment.''
      else if includes_str (message error) ''timeout''
        then new_Error ''Analysis timeout. Document may be too complex.''
      else new_Error (''Analysis failed: '' @ message error))"

definition too_large :: js_error where
  "too_large = new_Error ''Document too large. Maximum size is 200,000 characters.''"

definition invalid_json :: js_error where
  "invalid_json = new_Error ''Invalid JSON response from Claude''"

text \<open>
  The body of the \<^verbatim>\<open>try\<close> block of \<^verbatim>\<open>analyzeDocument\<close> (llmService.js, lines
  135-175).  \<open>create\<close> is the call of the external model: it receives the document and
  either raises an error or returns the text of the reply.  \<open>json_parse\<close> is
  \<^verbatim>\<open>JSON.parse\<close> followed by reading the result as a finding set, \<open>None\<close> when it
  raises.  The second component of the result lists the documents sent to the model.
\<close>

definition analyzeDocument_try ::
  "(string \<Rightarrow> js_error + string) \<Rightarrow> (string \<Rightarrow> location analysis option)
     \<Rightarrow> (nat \<Rightarrow> string) \<Rightarrow> string
     \<Rightarrow> (js_error + (location, stats) processed) \<times> string list" where
  "analyzeDocument_try create json_parse fresh originalText =
     (if length originalText > 200000 then (Inl too_large, [])
      else case create originalText of
             Inl e \<Rightarrow> (Inl e, [originalText])
           | Inr content \<Rightarrow>
               (case json_parse (jsonText content) of
                  None \<Rightarrow> (Inl invalid_json, [originalText])
                | Some analysisResult \<Rightarrow>
                    (Inr (validateAndProcessResults fresh analysisResult originalText),
                     [originalText])))"

definition analyzeDocument ::
  "(string \<Rightarrow> js_error + string) \<Rightarrow> (string \<Rightarrow> location analysis option)
     \<Rightarrow> (nat \<Rightarrow> string) \<Rightarrow> string
     \<Rightarrow> (js_error + (location, stats) processed) \<times> string list" where
  "analyzeDocument create json_parse fresh originalText =
     (case analyzeDocument_try create json_parse fresh originalText of
        (Inl error, calls) \<Rightarrow> (Inl (catch_rethrow error), calls)
      | (Inr processedResult, calls) \<Rightarrow> (Inr processedResult, calls))"

text \<open>
  The second variant (lines 129-187) takes the structured document; its size check reads
  \<^verbatim>\<open>documentStructure.fullText?.length\<close>.
\<close>

definition analyzeDocument_try_v2 ::
  "(document \<Rightarrow> js_error + string) \<Rightarrow> (string \<Rightarrow> location_v2 analysis option)
     \<Rightarrow> (nat \<Rightarrow> string) \<Rightarrow> document
     \<Rightarrow> (js_error + (location_v2, stats_v2) processed) \<times> document list" where
  "analyzeDocument_try_v2 create json_parse fresh documentStructure =
     (if (case js_length (fullText documentStructure) of None \<Rightarrow> False | Some n \<Rightarrow> n > 200000)
      then (Inl too_large, [])
      else case create documentStructure of
             Inl e \<Rightarrow> (Inl e, [documentStructure])
           | Inr content \<Rightarrow>
               (case json_parse (jsonText content) of
                  None \<Rightarrow> (Inl invalid_json, [documentStructure])
                | Some analysisResult \<Rightarrow>
                    (Inr (validateAndProcessResults_v2 fresh analysisResult documentStructure),
                     [documentStructure])))"

definition analyzeDocument_v2 ::
  "(document \<Rightarrow> js_error + string) \<Rightarrow> (string \<Rightarrow> location_v2 analysis option)
     \<Rightarrow> (nat \<Rightarrow> string) \<Rightarrow> document
     \<Rightarrow> (js_error + (location_v2, stats_v2) processed) \<times> document list" where
  "analyzeDocument_v2 create json_parse fresh documentStructure =
     (case analyzeDocument_try_v2 create json_parse fresh documentStructure of
        (Inl error, calls) \<Rightarrow> (Inl (catch_rethrow error), calls)
      | (Inr processedResult, calls) \<Rightarrow> (Inr processedResult, calls))"

subsection \<open>Request validation and the transport handler\<close>

text \<open>
  The body of a request.  \<open>documentStructure\<close> is absent or falsy (\<open>NoStruct\<close>), a truthy
  value that is not an object (\<open>NotObject\<close>), or an object with the fields of a document.
\<close>

datatype struct_field = NoStruct | NotObject | Struct document

fun struct_truthy :: "struct_field \<Rightarrow> bool" where
  "struct_truthy NoStruct = False"
| "struct_truthy NotObject = True"
| "struct_truthy (Struct d) = True"

record request_body =
  documentText :: jsval
  documentStructure :: struct_field
  analysisMode :: jsval
  userId :: jsval

record validation =
  valid :: bool
  errors :: "string list"

text \<open>\<^verbatim>\<open>validateRequest\<close> (lines 141-191), branch by branch.\<close>

definition text_errors :: "jsval \<Rightarrow> string list" where
  "text_errors v =
     (case v of
        Str s \<Rightarrow>
          if length s < 100 then [''documentText is too short (minimum 100 characters)'']
          else if length s > 200000 then [''documentText is too long (maximum 200,000 characters)'']
          else []
      | _ \<Rightarrow> [''documentText must be a string''])"

definition structure_errors :: "struct_field \<Rightarrow> string list" where
  "structure_errors v =
     (case v of
        Struct d \<Rightarrow>
          if \<not> truthy (fullText d) then [''documentStructure.fullText is required'']
          else if \<not> is_array (paragraphs d)
            then [''documentStructure.paragraphs must be an array'']
          else if (case js_length (fullText d) of None \<Rightarrow> False | Some n \<Rightarrow> n < 100)
            then [''documentStructure.fullText is too short (minimum 100 characters)'']
          else if (case js_length (fullText d) of None \<Rightarrow> False | Some n \<Rightarrow> n > 200000)
            then [''documentStructure.fullText is too long (maximum 200,000 characters)'']
          else []
      | _ \<Rightarrow> [''documentStructure must be an object''])"

definition mode_errors :: "jsval \<Rightarrow> string list" where
  "mode_errors v =
     (if truthy v \<and> v \<notin> set [Str ''llm'', Str ''rules'', Str ''hybrid'']
      then [''analysisMode must be one of: llm, rules, hybrid''] else [])"

definition user_errors :: "jsval \<Rightarrow> string list" where
  "user_errors v =
     (if truthy v \<and> (case v of Str s \<Rightarrow> length s > 100 | _ \<Rightarrow> True)
      then [''userId must be a string with maximum 100 characters''] else [])"

definition validateRequest :: "request_body option \<Rightarrow> validation" where
  "validateRequest body =
     (case body of
        None \<Rightarrow> \<lparr>valid = False, errors = [''Request body is required'']\<rparr>
      | Some b \<Rightarrow>
          let errs =
                (if \<not> truthy (documentText b) \<and> \<not> struct_truthy (documentStructure b)
                   then [''Either documentText or documentStructure is required'']
                 else if truthy (documentText b) then text_errors (documentText b)
                 else if struct_truthy (documentStructure b)
                   then structure_errors (documentStructure b)
                 else [])
                @ mode_errors (analysisMode b) @ user_errors (userId b)
          in \<lparr>valid = (length errs = 0), errors = errs\<rparr>)"

text \<open>The status the handler answers a caught error with (handler, lines 67-69).\<close>

definition status_of_error :: "js_error \<Rightarrow> nat" where
  "status_of_error error =
     (if code error = Some ''RATE_LIMIT_EXCEEDED'' then 429
      else if code error = Some ''INVALID_API_KEY'' then 401
      else if code error = Some ''DOCUMENT_TOO_LARGE'' then 413
      else 500)"

record request =
  http_method :: string
  body :: "request_body option"

text \<open>
  The document the handler hands to the analysis (lines 39-45): the structure when it is
  truthy, else an object holding the plain text.
\<close>

definition as_document :: "request_body \<Rightarrow> document" where
  "as_document b =
     (case documentStructure b of
        Struct d \<Rightarrow> d
      | NotObject \<Rightarrow> \<lparr>fullText = Nullish, paragraphs = NoParagraphs\<rparr>
      | NoStruct \<Rightarrow> \<lparr>fullText = documentText b, paragraphs = NoParagraphs\<rparr>)"

text \<open>
  The handler, as the status it answers with and the model calls it caused.  \<open>analyze\<close>
  is the service's \<^verbatim>\<open>analyzeDocument\<close>.  After a successful analysis the response reads
  \<^verbatim>\<open>documentText.length\<close>, which raises for a request without plain text; that error
  is caught by the same \<^verbatim>\<open>catch\<close> clause.
\<close>

definition handler ::
  "(document \<Rightarrow> (js_error + 'r) \<times> 'c list) \<Rightarrow> request \<Rightarrow> nat \<times> 'c list" where
  "handler analyze req =
     (if http_method req = ''OPTIONS'' then (200, [])
      else if http_method req \<noteq> ''POST'' then (405, [])
      else if \<not> valid (validateRequest (body req)) then (400, [])
      else case body req of
             None \<Rightarrow> (500, [])
           | Some b \<Rightarrow>
               (case analyze (as_document b) of
                  (Inl error, calls) \<Rightarrow> (status_of_error error, calls)
                | (Inr result, calls) \<Rightarrow>
                    if documentText b = Nullish
                    then (status_of_error (new_Error ''Cannot read properties of undefined''), calls)
                    else (200, calls)))"

subsection \<open>The rate limiter\<close>

text \<open>
  The store maps a key to the instants of its admitted requests and a reset time.  A
  number that may be \<^verbatim>\<open>Infinity\<close> (\<^verbatim>\<open>Math.min()\<close> of no arguments) is a \<open>jsnum\<close>.
\<close>

datatype jsnum = Finite int | Infinity

record entry =
  requests :: "int list"
  resetTime :: int

type_synonym store = "string \<Rightarrow> entry option"

record decision =
  success :: bool
  limit :: int
  remaining :: int
  retryAfter :: jsnum
  resetAt :: int

text \<open>
  \<^verbatim>\<open>cleanupOldEntries(cutoffTime)\<close> (rateLimit.js, lines 71-84) visits every entry of
  the store; \<open>clock key\<close> is the reading of \<^verbatim>\<open>Date.now()\<close> made at the entry of \<open>key\<close>.
\<close>

definition cleanupOldEntries :: "int \<Rightarrow> (string \<Rightarrow> int) \<Rightarrow> store \<Rightarrow> store" where
  "cleanupOldEntries cutoffTime clock rateLimitStore =
     (\<lambda>key. case rateLimitStore key of
               None \<Rightarrow> None
             | Some data \<Rightarrow>
                 let kept = filter (\<lambda>time. time > cutoffTime) (requests data)
                 in if length kept = 0 \<and> resetTime data < clock key then None
                    else Some (data\<lparr>requests := kept\<rparr>))"

definition math_min :: "int list \<Rightarrow> jsnum" where
  "math_min xs = (case xs of [] \<Rightarrow> Infinity | x # rest \<Rightarrow> Finite (fold min rest x))"

text \<open>\<^verbatim>\<open>Math.ceil((oldestRequest + windowMs - now) / 1000)\<close>.\<close>

definition ceil_seconds :: "jsnum \<Rightarrow> int \<Rightarrow> int \<Rightarrow> jsnum" where
  "ceil_seconds oldestRequest windowMs now =
     (case oldestRequest of
        Infinity \<Rightarrow> Infinity
      | Finite t \<Rightarrow> Finite \<lceil>(of_int (t + windowMs - now) :: rat) / 1000\<rceil>)"

text \<open>
  \<^verbatim>\<open>rateLimit(req, {windowMs, max, keyGenerator})\<close> (lines 6-61) for the key the
  generator yields, at clock reading \<open>now\<close>.  \<open>sweep\<close> is the outcome of the random
  draw: \<open>None\<close> when \<^verbatim>\<open>Math.random() < 0.01\<close> is false, \<open>Some clock\<close> when the
  cleanup runs.  The function returns the decision and the store it leaves behind.
\<close>

definition rateLimit ::
  "int \<Rightarrow> int \<Rightarrow> string \<Rightarrow> int \<Rightarrow> (string \<Rightarrow> int) option \<Rightarrow> store \<Rightarrow> decision \<times> store" where
  "rateLimit windowMs mx key now sweep rateLimitStore =
     (let windowStart = now - windowMs;
          swept = (case sweep of
                     None \<Rightarrow> rateLimitStore
                   | Some clock \<Rightarrow> cleanupOldEntries windowStart clock rateLimitStore);
          rateLimitData = (case swept key of
                             None \<Rightarrow> \<lparr>requests = [], resetTime = now + windowMs\<rparr>
                           | Some data \<Rightarrow> data);
          kept = filter (\<lambda>time. time > windowStart) (requests rateLimitData)
      in if int (length kept) \<ge> mx
         then (\<lparr>success = False, limit = mx, remaining = 0,
                 retryAfter = ceil_seconds (math_min kept) windowMs now,
                 resetAt = resetTime rateLimitData\<rparr>,
               swept(key \<mapsto> rateLimitData\<lparr>requests := kept\<rparr>))
         else (\<lparr>success = True, limit = mx, remaining = mx - int (length (kept @ [now])),
                 retryAfter = Finite 0,
                 resetAt = now + windowMs\<rparr>,
               swept(key \<mapsto> \<lparr>requests = kept @ [now], resetTime = now + windowMs\<rparr>)))"

text \<open>
  \<^verbatim>\<open>rateLimitAdvanced(req, endpoint)\<close> (lines 108-117): the tier of the endpoint as
  (windowMs, max), the default tier for any other endpoint.
\<close>

definition limits :: "string \<Rightarrow> int \<times> int" where
  "limits endpoint =
     (if endpoint = ''/api/v1/analyze'' then (15 * 60 * 1000, 5)
      else if endpoint = ''/api/v1/health'' then (60 * 1000, 60)
      else (15 * 60 * 1000, 10))"

definition rateLimitAdvanced ::
  "string \<Rightarrow> string \<Rightarrow> int \<Rightarrow> (string \<Rightarrow> int) option \<Rightarrow> store \<Rightarrow> decision \<times> store" where
  "rateLimitAdvanced endpoint key now sweep rateLimitStore =
     (case limits endpoint of (windowMs, mx) \<Rightarrow> rateLimit windowMs mx key now sweep rateLimitStore)"

text \<open>
  A sequence of admission checks against one store: each check carries the options it
  passes, the key, the clock reading and the outcome of the random draw.
  \<open>advanced_check\<close> is a check made through \<^verbatim>\<open>rateLimitAdvanced\<close>.
\<close>

record check =
  ck_windowMs :: int
  ck_max :: int
  ck_key :: string
  ck_now :: int
  ck_sweep :: "(string \<Rightarrow> int) option"

fun run_checks :: "check list \<Rightarrow> store \<Rightarrow> decision list \<times> store" where
  "run_checks [] s = ([], s)"
| "run_checks (c # cs) s =
     (case rateLimit (ck_windowMs c) (ck_max c) (ck_key c) (ck_now c) (ck_sweep c) s of
        (d, s') \<Rightarrow> (case run_checks cs s' of (ds, s'') \<Rightarrow> (d # ds, s'')))"

definition advanced_check ::
  "string \<Rightarrow> string \<Rightarrow> int \<Rightarrow> (string \<Rightarrow> int) option \<Rightarrow> check" where
  "advanced_check endpoint key now sweep =
     \<lparr>ck_windowMs = fst (limits endpoint), ck_max = snd (limits endpoint),
      ck_key = key, ck_now = now, ck_sweep = sweep\<rparr>"

text \<open>
  The instants the store holds for a key, and the instants at which a run of checks
  admitted a key.
\<close>

definition stored :: "store \<Rightarrow> string \<Rightarrow> int list" where
  "stored s k = (case s k of None \<Rightarrow> [] | Some d \<Rightarrow> requests d)"

fun admissions :: "string \<Rightarrow> check list \<Rightarrow> decision list \<Rightarrow> int list" where
  "admissions k (c # cs) (d # ds) =
     (if ck_key c = k \<and> success d then [ck_now c] else []) @ admissions k cs ds"
| "admissions k cs ds = []"

subsection \<open>Sample inputs\<close>

text \<open>
  A finding with the given severity, offsets and quoted text, with identifier and
  \<^verbatim>\<open>autoFixable\<close> present.
\<close>

definition finding :: "string \<Rightarrow> int \<Rightarrow> int \<Rightarrow> string \<Rightarrow> location issue" where
  "finding sev a b quoted =
     \<lparr>issue_id = Some ''f1'', severity = Some sev, autoFixable = Some True,
      location = Some \<lparr>startIndex = a, endIndex = b, exactText = Some quoted\<rparr>\<rparr>"

text \<open>
  Requests and upstream failures: a plain text of 100 units, the errors the model client
  raises for a rate limit and for a bad key, a request carrying the plain text, and a
  request carrying the plain text together with a structure of 200,001 units.
\<close>

definition long_text :: string where
  "long_text = replicate 100 CHR ''a''"

definition rate_limited :: js_error where
  "rate_limited = \<lparr>message = ''429 Too Many Requests'', type = Some ''rate_limit_error'', code = None\<rparr>"

definition unauthenticated :: js_error where
  "unauthenticated = \<lparr>message = ''401 invalid x-api-key'', type = Some ''authentication_error'', code = None\<rparr>"

definition text_request :: request where
  "text_request = \<lparr>http_method = ''POST'',
      body = Some \<lparr>documentText = Str long_text, documentStructure = NoStruct,
                    analysisMode = Nullish, userId = Nullish\<rparr>\<rparr>"

definition oversized_request :: request where
  "oversized_request = \<lparr>http_method = ''POST'',
      body = Some \<lparr>documentText = Str long_text,
                    documentStructure = Struct \<lparr>fullText = Str (replicate 200001 CHR ''a''),
                                                 paragraphs = Paragraphs []\<rparr>,
                    analysisMode = Nullish, userId = Nullish\<rparr>\<rparr>"

text \<open>
  A request that carries both a plain text of 100 units and a structure whose full text
  has five units.
\<close>

definition mixed_request :: request where
  "mixed_request = \<lparr>http_method = ''POST'',
      body = Some \<lparr>documentText = Str long_text,
                    documentStructure = Struct \<lparr>fullText = Str ''short'', paragraphs = Paragraphs []\<rparr>,
                    analysisMode = Nullish, userId = Nullish\<rparr>\<rparr>"

text \<open>
  A paragraph-form finding with the given index and searchable text, and a document of
  one paragraph.
\<close>

definition finding_v2 :: "int \<Rightarrow> string \<Rightarrow> location_v2 issue" where
  "finding_v2 pix t =
     \<lparr>issue_id = Some ''f1'', severity = Some ''Critical'', autoFixable = Some True,
      location = Some \<lparr>paragraphIndex = Some pix, searchableText = Some t\<rparr>\<rparr>"

definition one_paragraph :: document where
  "one_paragraph =
     \<lparr>fullText = Str ''Hello world'', paragraphs = Paragraphs [\<lparr>par_text = ''Hello world''\<rparr>]\<rparr>"

section \<open>Verification\<close>

subsection \<open>The recursion computes the edit distance\<close>

text \<open>
  Every pair of strings is connected by \<open>lev_rec\<close> many edits, and no shorter
  sequence of edits connects them: one edit changes \<open>lev_rec\<close> by at most one.
\<close>

lemma lev_rec_Nil2: "lev_rec xs [] = length xs"
  by (cases xs) simp_all

lemma edit1_Cons: "edit1 xs ys \<Longrightarrow> edit1 (c # xs) (c # ys)"
proof (induction rule: edit1.induct)
  case (ins u v a)
  show ?case using edit1.ins [of "c # u" v a] by simp
next
  case (del u a v)
  show ?case using edit1.del [of "c # u" a v] by simp
next
  case (sub u a v b)
  show ?case using edit1.sub [of "c # u" a v b] by simp
qed

lemma edits_Cons: "edits n xs ys \<Longrightarrow> edits n (c # xs) (c # ys)"
  by (induction rule: edits.induct) (auto intro: edits.intros edit1_Cons)

lemma edit1_ins_hd: "edit1 v (a # v)"
  using edit1.ins [of "[]" v a] by simp

lemma edit1_del_hd: "edit1 (a # v) v"
  using edit1.del [of "[]" a v] by simp

lemma edit1_sub_hd: "edit1 (a # v) (b # v)"
  using edit1.sub [of "[]" a v b] by simp

lemma edits_insert_all: "edits (length ys) [] ys"
proof (induction ys)
  case Nil
  show ?case by (simp add: edits_refl)
next
  case (Cons y ys)
  have "edit1 [] [y]" using edit1_ins_hd [of "[]" y] by simp
  moreover have "edits (length ys) [y] (y # ys)" using Cons.IH by (rule edits_Cons)
  ultimately show ?case by (simp add: edits_step)
qed

lemma edits_delete_all: "edits (length xs) xs []"
proof (induction xs)
  case Nil
  show ?case by (simp add: edits_refl)
next
  case (Cons x xs)
  have "edit1 (x # xs) xs" by (rule edit1_del_hd)
  then show ?case using Cons.IH by (simp add: edits_step)
qed

lemma edits_lev_rec: "edits (lev_rec xs ys) xs ys"
proof (induction xs ys rule: lev_rec.induct)
  case (1 ys)
  show ?case by (simp add: edits_insert_all)
next
  case (2 x xs)
  show ?case using edits_delete_all [of "x # xs"] by simp
next
  case (3 x xs y ys)
  have a: "edits (lev_rec xs ys + (if x = y then 0 else 1)) (x # xs) (y # ys)"
  proof (cases "x = y")
    case True
    then show ?thesis using edits_Cons [OF "3.IH"(1), of y] by simp
  next
    case False
    have "edits (Suc (lev_rec xs ys)) (x # xs) (y # ys)"
      using edit1_sub_hd [of x xs y] edits_Cons [OF "3.IH"(1), of y] by (rule edits_step)
    then show ?thesis using False by simp
  qed
  have b: "edits (lev_rec xs (y # ys) + 1) (x # xs) (y # ys)"
    using edits_step [OF edit1_del_hd [of x xs] "3.IH"(2)] by simp
  have c: "edits (lev_rec (x # xs) ys + 1) (x # xs) (y # ys)"
    using edits_step [OF edit1_ins_hd [of "x # xs" y] edits_Cons [OF "3.IH"(3), of y]] by simp
  show ?case using a b c by (simp add: min_def)
qed


lemma lev_rec_sym: "lev_rec xs ys = lev_rec ys xs"
proof (induction xs ys rule: lev_rec.induct)
  case (1 ys)
  show ?case by (simp add: lev_rec_Nil2)
next
  case (2 x xs)
  show ?case by simp
next
  case (3 x xs y ys)
  then show ?case by (simp add: min.commute min.left_commute eq_commute [of x y])
qed

lemma lev_rec_same: "lev_rec xs xs = 0"
  by (induction xs) simp_all

lemma lev_rec_del_left: "lev_rec (a # v) zs \<le> lev_rec v zs + 1"
  by (cases zs) (simp_all add: lev_rec_Nil2)

lemma lev_rec_del_right: "lev_rec v (z # zs) \<le> lev_rec v zs + 1"
  using lev_rec_del_left [of z zs v] by (simp add: lev_rec_sym [of v])

lemma lev_rec_ins_left: "lev_rec v zs \<le> lev_rec (a # v) zs + 1"
proof (induction zs)
  case Nil
  show ?case by (simp add: lev_rec_Nil2)
next
  case (Cons z zs)
  have "lev_rec v (z # zs) \<le> lev_rec v zs + 1" by (rule lev_rec_del_right)
  with Cons.IH show ?case by (simp add: min_def)
qed

lemma lev_rec_ins_right: "lev_rec v zs \<le> lev_rec v (z # zs) + 1"
  using lev_rec_ins_left [of zs v z] by (simp add: lev_rec_sym [of v])

lemma le_min3_plus1:
  fixes L :: nat
  assumes "L \<le> A + 1" and "L \<le> B + 1" and "L \<le> C + 1"
  shows "L \<le> min A (min B C) + 1"
  using assms by (simp add: min_def)

lemma lev_rec_sub_left: "lev_rec (a # v) zs \<le> lev_rec (b # v) zs + 1"
proof (induction zs)
  case Nil
  show ?case by simp
next
  case (Cons z zs)
  define L where "L = lev_rec (a # v) (z # zs)"
  have "L \<le> lev_rec v zs + 1"
    unfolding L_def by (simp add: min_def)
  then have a: "L \<le> (lev_rec v zs + (if b = z then 0 else 1)) + 1"
    by simp
  have b: "L \<le> (lev_rec v (z # zs) + 1) + 1"
    unfolding L_def using lev_rec_del_left [of a v "z # zs"] by simp
  have "L \<le> lev_rec (a # v) zs + 1"
    unfolding L_def by (rule lev_rec_del_right)
  then have c: "L \<le> (lev_rec (b # v) zs + 1) + 1"
    using Cons.IH by simp
  have "L \<le> lev_rec (b # v) (z # zs) + 1"
    unfolding lev_rec.simps by (rule le_min3_plus1 [OF a b c])
  then show ?case by (simp only: L_def)
qed

lemma lev_rec_Cons_mono:
  assumes "\<And>zs. lev_rec X zs \<le> lev_rec Y zs + 1"
  shows "lev_rec (c # X) zs \<le> lev_rec (c # Y) zs + 1"
proof (induction zs)
  case Nil
  show ?case using assms [of "[]"] by (simp add: lev_rec_Nil2)
next
  case (Cons z zs)
  define L where "L = lev_rec (c # X) (z # zs)"
  have "L \<le> lev_rec X zs + (if c = z then 0 else 1)"
    unfolding L_def by (simp add: min_def)
  then have a: "L \<le> (lev_rec Y zs + (if c = z then 0 else 1)) + 1"
    using assms [of zs] by simp
  have "L \<le> lev_rec X (z # zs) + 1"
    unfolding L_def by (rule lev_rec_del_left)
  then have b: "L \<le> (lev_rec Y (z # zs) + 1) + 1"
    using assms [of "z # zs"] by simp
  have "L \<le> lev_rec (c # X) zs + 1"
    unfolding L_def by (rule lev_rec_del_right)
  then have c: "L \<le> (lev_rec (c # Y) zs + 1) + 1"
    using Cons.IH by simp
  have "L \<le> lev_rec (c # Y) (z # zs) + 1"
    unfolding lev_rec.simps by (rule le_min3_plus1 [OF a b c])
  then show ?case by (simp only: L_def)
qed

lemma lev_rec_append_mono:
  assumes "\<And>zs. lev_rec X zs \<le> lev_rec Y zs + 1"
  shows "lev_rec (u @ X) zs \<le> lev_rec (u @ Y) zs + 1"
proof (induction u arbitrary: zs)
  case Nil
  show ?case using assms by simp
next
  case (Cons c u)
  show ?case using lev_rec_Cons_mono [of "u @ X" "u @ Y" c zs] Cons.IH by simp
qed

lemma edit1_lev_rec: "edit1 xs ys \<Longrightarrow> lev_rec xs zs \<le> lev_rec ys zs + 1"
proof (induction rule: edit1.induct)
  case (ins u v a)
  show ?case by (rule lev_rec_append_mono) (rule lev_rec_ins_left)
next
  case (del u a v)
  show ?case by (rule lev_rec_append_mono) (rule lev_rec_del_left)
next
  case (sub u a v b)
  show ?case by (rule lev_rec_append_mono) (rule lev_rec_sub_left)
qed

lemma edits_lower: "edits n xs ys \<Longrightarrow> lev_rec xs ys \<le> n"
proof (induction rule: edits.induct)
  case (edits_refl xs)
  show ?case by (simp add: lev_rec_same)
next
  case (edits_step xs ys n zs)
  then show ?case using edit1_lev_rec [of xs ys zs] by simp
qed

lemma edit_distance_rec: "edit_distance xs ys = lev_rec xs ys"
  unfolding edit_distance_def
  by (rule Least_equality) (auto intro: edits_lev_rec edits_lower)

lemma edit1_rev: "edit1 xs ys \<Longrightarrow> edit1 (rev xs) (rev ys)"
proof (induction rule: edit1.induct)
  case (ins u v a)
  show ?case using edit1.ins [of "rev v" "rev u" a] by simp
next
  case (del u a v)
  show ?case using edit1.del [of "rev v" a "rev u"] by simp
next
  case (sub u a v b)
  show ?case using edit1.sub [of "rev v" a "rev u" b] by simp
qed

lemma edits_rev: "edits n xs ys \<Longrightarrow> edits n (rev xs) (rev ys)"
  by (induction rule: edits.induct) (auto intro: edits.intros edit1_rev)

lemma lev_rec_rev_le: "lev_rec (rev xs) (rev ys) \<le> lev_rec xs ys"
  by (rule edits_lower) (rule edits_rev, rule edits_lev_rec)

lemma lev_rec_rev: "lev_rec (rev xs) (rev ys) = lev_rec xs ys"
  using lev_rec_rev_le [of xs ys] lev_rec_rev_le [of "rev xs" "rev ys"] by simp

lemma lev_rec_snoc:
  "lev_rec (xs @ [x]) (ys @ [y]) =
     min (lev_rec xs ys + (if x = y then 0 else 1))
         (min (lev_rec xs (ys @ [y]) + 1) (lev_rec (xs @ [x]) ys + 1))"
proof -
  have "lev_rec (xs @ [x]) (ys @ [y]) = lev_rec (x # rev xs) (y # rev ys)"
    using lev_rec_rev [of "xs @ [x]" "ys @ [y]"] by simp
  also have "\<dots> = min (lev_rec (rev xs) (rev ys) + (if x = y then 0 else 1))
         (min (lev_rec (rev xs) (rev (ys @ [y])) + 1) (lev_rec (rev (xs @ [x])) (rev ys) + 1))"
    by simp
  finally show ?thesis by (simp only: lev_rec_rev)
qed

lemma lev_rec_snoc_eq: "lev_rec (xs @ [x]) (ys @ [x]) = lev_rec xs ys"
proof -
  have "lev_rec (xs @ [x]) (ys @ [x]) = lev_rec (x # rev xs) (x # rev ys)"
    using lev_rec_rev [of "xs @ [x]" "ys @ [x]"] by simp
  also have "\<dots> = lev_rec (rev xs) (rev ys)"
    using lev_rec_ins_left [of "rev xs" "rev ys" x] lev_rec_ins_right [of "rev xs" "rev ys" x]
    by (simp add: min_def)
  finally show ?thesis by (simp only: lev_rec_rev)
qed

subsection \<open>The matrix loops compute the recursion\<close>

text \<open>
  The invariant \<open>filled str1 str2 i j m\<close>: all rows above \<open>i\<close>, column \<open>0\<close>, and
  row \<open>i\<close> left of column \<open>j\<close> hold the distances of the corresponding prefixes.
\<close>

lemma fold_upt_invariant:
  assumes "a \<le> b" and "P a m"
    and "\<And>k m'. a \<le> k \<Longrightarrow> k < b \<Longrightarrow> P k m' \<Longrightarrow> P (Suc k) (f k m')"
  shows "P b (fold f [a..<b] m)"
  using assms
proof (induction b)
  case 0
  then show ?case by simp
next
  case (Suc b)
  show ?case
  proof (cases "a = Suc b")
    case True
    then show ?thesis using Suc.prems(2) by simp
  next
    case False
    then have ab: "a \<le> b" using Suc.prems(1) by simp
    have "P b (fold f [a..<b] m)"
      using ab Suc.prems(2) Suc.prems(3) by (intro Suc.IH) simp_all
    then have "P (Suc b) (f b (fold f [a..<b] m))"
      using ab by (intro Suc.prems(3)) simp_all
    then show ?thesis using ab by simp
  qed
qed

lemma cellv_col0: "r \<le> length str2 \<Longrightarrow> cellv str1 str2 r 0 = r"
  by (simp add: cellv_def lev_rec_Nil2)

lemma cellv_row0: "cellv str1 str2 0 c = min (length str1) c"
  by (simp add: cellv_def)

lemma cellv_step:
  assumes "i < length str2" and "j < length str1"
  shows "cellv str1 str2 (Suc i) (Suc j) =
           (if str2 ! i = str1 ! j then cellv str1 str2 i j
            else min (cellv str1 str2 i j + 1)
                     (min (cellv str1 str2 (Suc i) j + 1) (cellv str1 str2 i (Suc j) + 1)))"
proof -
  have t2: "take (Suc i) str2 = take i str2 @ [str2 ! i]"
    using assms(1) by (rule take_Suc_conv_app_nth)
  have t1: "take (Suc j) str1 = take j str1 @ [str1 ! j]"
    using assms(2) by (rule take_Suc_conv_app_nth)
  show ?thesis
  proof (cases "str2 ! i = str1 ! j")
    case True
    then show ?thesis
      unfolding cellv_def t1 t2 by (simp add: lev_rec_snoc_eq)
  next
    case False
    have "lev_rec (take i str2 @ [str2 ! i]) (take j str1 @ [str1 ! j]) =
          min (lev_rec (take i str2) (take j str1) + 1)
              (min (lev_rec (take i str2) (take j str1 @ [str1 ! j]) + 1)
                   (lev_rec (take i str2 @ [str2 ! i]) (take j str1) + 1))"
      using False by (simp add: lev_rec_snoc)
    then show ?thesis
      unfolding cellv_def t1 t2 using False by (simp add: min.commute min.left_commute)
  qed
qed

lemma first_loop:
  "fold (\<lambda>i. new_row i i) [0..<n] (\<lambda>_. None) (r, c) = (if r < n \<and> c = 0 then Some r else None)"
  by (induction n) (auto simp: new_row_def)

lemma second_loop:
  "fold (\<lambda>j. set_cell 0 j (Some j)) [0..<n] m (r, c) = (if r = 0 \<and> c < n then Some c else m (r, c))"
  by (induction n) (auto simp: set_cell_def)

lemma filled_init:
  "filled str1 str2 1 1
     (fold (\<lambda>j. set_cell 0 j (Some j)) [0..<Suc (length str1)]
        (fold (\<lambda>i. new_row i i) [0..<Suc (length str2)] (\<lambda>_. None)))"
  unfolding filled_def
proof (intro allI impI)
  fix r c
  assume h: "r \<le> length str2 \<and> c \<le> length str1 \<and> (r < 1 \<or> c = 0 \<or> r = 1 \<and> c < 1)"
  then have "r = 0 \<or> c = 0" by auto
  then show "fold (\<lambda>j. set_cell 0 j (Some j)) [0..<Suc (length str1)]
        (fold (\<lambda>i. new_row i i) [0..<Suc (length str2)] (\<lambda>_. None)) (r, c) = Some (cellv str1 str2 r c)"
    using h by (auto simp: second_loop first_loop cellv_col0 cellv_row0 simp del: upt_Suc)
qed

lemma filled_cell:
  assumes "filled str1 str2 i j m" and "1 \<le> i" and "i \<le> length str2"
    and "1 \<le> j" and "j \<le> length str1"
  shows "filled str1 str2 i (Suc j) (lev_cell str1 str2 i j m)"
proof -
  obtain i' j' where ij: "i = Suc i'" "j = Suc j'"
    using assms(2,4) by (cases i; cases j) auto
  have lt: "i' < length str2" "j' < length str1" using assms(3,5) ij by simp_all
  have diag: "m (i', j') = Some (cellv str1 str2 i' j')"
    using assms(1) lt ij unfolding filled_def by simp
  have left: "m (i, j') = Some (cellv str1 str2 i j')"
    using assms(1,3) lt ij unfolding filled_def by simp
  have up: "m (i', j) = Some (cellv str1 str2 i' j)"
    using assms(1,5) lt ij unfolding filled_def by simp
  have new: "lev_cell str1 str2 i j m (i, j) = Some (cellv str1 str2 i j)"
    using diag left up cellv_step [OF lt]
    by (simp add: lev_cell_def set_cell_def js_min3_def js_succ_def ij)
  have old: "lev_cell str1 str2 i j m (r, c) = m (r, c)" if "(r, c) \<noteq> (i, j)" for r c
    using that by (auto simp: lev_cell_def set_cell_def)
  show ?thesis
    unfolding filled_def
  proof (intro allI impI)
    fix r c
    assume h: "r \<le> length str2 \<and> c \<le> length str1 \<and> (r < i \<or> c = 0 \<or> r = i \<and> c < Suc j)"
    show "lev_cell str1 str2 i j m (r, c) = Some (cellv str1 str2 r c)"
    proof (cases "(r, c) = (i, j)")
      case True
      then show ?thesis using new by simp
    next
      case False
      then have "r < i \<or> c = 0 \<or> r = i \<and> c < j" using h by auto
      then have "m (r, c) = Some (cellv str1 str2 r c)"
        using assms(1) h unfolding filled_def by simp
      then show ?thesis using old [OF False] by simp
    qed
  qed
qed

lemma filled_next_row:
  assumes "filled str1 str2 i (Suc (length str1)) m"
  shows "filled str1 str2 (Suc i) 1 m"
  unfolding filled_def
proof (intro allI impI)
  fix r c
  assume h: "r \<le> length str2 \<and> c \<le> length str1 \<and> (r < Suc i \<or> c = 0 \<or> r = Suc i \<and> c < 1)"
  then have "r \<le> length str2 \<and> c \<le> length str1 \<and>
      (r < i \<or> c = 0 \<or> r = i \<and> c < Suc (length str1))"
    by auto
  then show "m (r, c) = Some (cellv str1 str2 r c)"
    using assms unfolding filled_def by blast
qed

lemma filled_row:
  assumes "filled str1 str2 i 1 m" and "1 \<le> i" and "i \<le> length str2"
  shows "filled str1 str2 (Suc i) 1
           (fold (\<lambda>j. lev_cell str1 str2 i j) [1..<Suc (length str1)] m)"
proof -
  have "filled str1 str2 i (Suc (length str1))
           (fold (\<lambda>j. lev_cell str1 str2 i j) [1..<Suc (length str1)] m)"
  proof (rule fold_upt_invariant [where P = "\<lambda>j. filled str1 str2 i j"])
    show "1 \<le> Suc (length str1)" by simp
    show "filled str1 str2 i 1 m" by (rule assms(1))
  next
    fix k m'
    assume "1 \<le> k" "k < Suc (length str1)" "filled str1 str2 i k m'"
    then show "filled str1 str2 i (Suc k) (lev_cell str1 str2 i k m')"
      using assms(2,3) by (intro filled_cell) simp_all
  qed
  then show ?thesis by (rule filled_next_row)
qed

lemma filled_all:
  "filled str1 str2 (Suc (length str2)) 1
     (fold (\<lambda>i. fold (\<lambda>j. lev_cell str1 str2 i j) [1..<Suc (length str1)])
        [1..<Suc (length str2)]
        (fold (\<lambda>j. set_cell 0 j (Some j)) [0..<Suc (length str1)]
           (fold (\<lambda>i. new_row i i) [0..<Suc (length str2)] (\<lambda>_. None))))"
proof (rule fold_upt_invariant [where P = "\<lambda>i. filled str1 str2 i 1"])
  show "1 \<le> Suc (length str2)" by simp
  show "filled str1 str2 1 1
     (fold (\<lambda>j. set_cell 0 j (Some j)) [0..<Suc (length str1)]
        (fold (\<lambda>i. new_row i i) [0..<Suc (length str2)] (\<lambda>_. None)))"
    by (rule filled_init)
next
  fix k m'
  assume "1 \<le> k" "k < Suc (length str2)" "filled str1 str2 k 1 m'"
  then show "filled str1 str2 (Suc k) 1
          (fold (\<lambda>j. lev_cell str1 str2 k j) [1..<Suc (length str1)] m')"
    by (intro filled_row) simp_all
qed

lemma levenshteinDistance_lev_rec:
  "levenshteinDistance str1 str2 = Some (lev_rec str1 str2)"
proof -
  have "levenshteinDistance str1 str2 = Some (cellv str1 str2 (length str2) (length str1))"
    using filled_all [of str1 str2]
    unfolding filled_def levenshteinDistance_def Let_def by simp
  then show ?thesis by (simp add: cellv_def lev_rec_sym [of str2 str1])
qed

lemma levenshteinDistance_correct:
  "levenshteinDistance str1 str2 = Some (edit_distance str1 str2)"
  by (simp add: levenshteinDistance_lev_rec edit_distance_rec)

subsection \<open>The matcher decides by the similarity ratio\<close>

lemma edit_distance_sym: "edit_distance a b = edit_distance b a"
  by (simp add: edit_distance_rec lev_rec_sym [of a b])

lemma edit_distance_Nil: "edit_distance [] b = length b" "edit_distance a [] = length a"
  by (simp_all add: edit_distance_rec lev_rec_Nil2)

lemma edit_distance_same: "edit_distance a a = 0"
  by (simp add: edit_distance_rec lev_rec_same)

lemma fuzzyMatch_similarity:
  assumes "str1 \<noteq> []" and "str2 \<noteq> []"
  shows "fuzzyMatch str1 str2 th = (th \<le> similarity str1 str2)"
proof (cases "length str1 > length str2")
  case True
  then have "max (length str1) (length str2) = length str1" by simp
  then show ?thesis
    using assms True
    by (simp add: fuzzyMatch_def similarity_def levenshteinDistance_correct Let_def)
next
  case False
  then have "max (length str1) (length str2) = length str2" by simp
  then show ?thesis
    using assms False
    by (simp add: fuzzyMatch_def similarity_def levenshteinDistance_correct Let_def
        edit_distance_sym [of str2 str1])
qed

lemma fuzzyMatch_empty: "str1 = [] \<or> str2 = [] \<Longrightarrow> \<not> fuzzyMatch str1 str2 th"
  by (auto simp: fuzzyMatch_def)

lemma similarity_empty: "a = [] \<or> b = [] \<Longrightarrow> similarity a b = 0"
  by (auto simp: similarity_def edit_distance_Nil)

lemma similarity_sym: "similarity a b = similarity b a"
  by (simp add: similarity_def edit_distance_sym [of a b] max.commute)

lemma similarity_same: "a \<noteq> [] \<Longrightarrow> similarity a a = 1"
  by (simp add: similarity_def edit_distance_same)

lemma fuzzyMatch_threshold:
  assumes "0 < th"
  shows "fuzzyMatch a b th = (th \<le> similarity a b)"
proof (cases "a = [] \<or> b = []")
  case True
  then show ?thesis
    using assms fuzzyMatch_empty [OF True, of th] similarity_empty [OF True] by simp
next
  case False
  then show ?thesis using fuzzyMatch_similarity [of a b th] by simp
qed

subsection \<open>Claim C7: the similarity ratio of the matcher\<close>

text \<open>
  C7.  For all strings \<open>a\<close> and \<open>b\<close>, at least one of them non-empty, and every
  positive threshold: the number \<^verbatim>\<open>levenshteinDistance\<close> returns is the edit distance
  of the full strings (the least number of single-unit insertions, deletions and
  substitutions); \<^verbatim>\<open>fuzzyMatch\<close> answers whether the threshold is at most
  \<open>(max(len a, len b) - editDistance(a, b)) / max(len a, len b)\<close>; when one of the two
  strings is empty that ratio is \<open>0\<close> and the matcher answers no, without dividing;
  the ratio and the answer are symmetric in \<open>a\<close> and \<open>b\<close>; and a non-empty string has
  ratio \<open>1\<close> with itself.
\<close>

theorem C7_similarity:
  assumes "a \<noteq> [] \<or> b \<noteq> []" and "0 < th"
  shows "levenshteinDistance a b = Some (edit_distance a b)
       \<and> fuzzyMatch a b th = (th \<le> similarity a b)
       \<and> (a = [] \<or> b = [] \<longrightarrow> similarity a b = 0 \<and> \<not> fuzzyMatch a b th)
       \<and> similarity a b = similarity b a
       \<and> fuzzyMatch a b th = fuzzyMatch b a th
       \<and> (a \<noteq> [] \<longrightarrow> similarity a a = 1 \<and> fuzzyMatch a a th = (th \<le> 1))"
proof -
  have sym: "fuzzyMatch a b th = fuzzyMatch b a th"
    using assms(2) by (simp add: fuzzyMatch_threshold similarity_sym [of a b])
  show ?thesis
    using assms(2) sym
    by (simp add: levenshteinDistance_correct fuzzyMatch_threshold similarity_empty
        fuzzyMatch_empty similarity_same similarity_sym [of a b])
qed

text \<open>
  The theorem at \<open>abcde\<close> against \<open>abxde\<close> (one substitution, ratio \<open>4 / 5\<close>) and at
  \<open>abc\<close> against the empty string.
\<close>

theorem C7_similarity_witness:
  "''abcde'' \<noteq> [] \<and> (0 :: rat) < 8 / 10
   \<and> levenshteinDistance ''abcde'' ''abxde'' = Some 1
   \<and> similarity ''abcde'' ''abxde'' = 4 / 5
   \<and> fuzzyMatch ''abcde'' ''abxde'' (8 / 10)
   \<and> fuzzyMatch ''abxde'' ''abcde'' (8 / 10)
   \<and> similarity ''abcde'' ''abcde'' = 1
   \<and> similarity ''abc'' '''' = 0
   \<and> \<not> fuzzyMatch ''abc'' '''' (8 / 10)"
proof -
  have d: "edit_distance ''abcde'' ''abxde'' = 1"
    by (simp add: edit_distance_rec)
  have s: "similarity ''abcde'' ''abxde'' = 4 / 5"
    by (simp add: similarity_def d)
  have a: "''abcde'' \<noteq> [] \<or> ''abxde'' \<noteq> []" by simp
  have b: "''abc'' \<noteq> [] \<or> '''' \<noteq> []" by simp
  have t: "(0 :: rat) < 8 / 10" by simp
  show ?thesis
    using C7_similarity [OF a t] C7_similarity [OF b t] d s by auto
qed

subsection \<open>Claim C8: the summary is recomputed from the surviving findings\<close>

lemma filter3_le:
  assumes "\<And>x. \<not> (P x \<and> Q x)" and "\<And>x. \<not> (P x \<and> R x)" and "\<And>x. \<not> (Q x \<and> R x)"
  shows "length (filter P xs) + length (filter Q xs) + length (filter R xs) \<le> length xs"
proof (induction xs)
  case Nil
  show ?case by simp
next
  case (Cons x xs)
  then show ?case using assms [of x] by auto
qed

lemma summarize_sum:
  "critical (summarize xs n) + warnings (summarize xs n) + suggestions (summarize xs n)
     \<le> totalIssues (summarize xs n)"
  unfolding summarize_def by (simp, rule filter3_le) auto

lemma validate_summary_irrelevant:
  "validateAndProcessResults fresh (ar\<lparr>ar_summary := s\<rparr>) txt = validateAndProcessResults fresh ar txt"
  by (simp add: validateAndProcessResults_def)

text \<open>
  C8.  In the result of \<^verbatim>\<open>validateAndProcessResults\<close>, whatever findings survive:
  \<open>totalIssues\<close> is the number of surviving findings; \<open>critical\<close>, \<open>warnings\<close> and
  \<open>suggestions\<close> count the survivors whose severity is exactly \<open>Critical\<close>, \<open>Warning\<close>
  and \<open>Suggestion\<close>, so a survivor of any other severity counts in the total only and
  the three counts sum to at most the total; \<open>documentLength\<close> is the length of the
  document text; and the summary reported by the model has no influence on the result.
\<close>

theorem C8_summary_recomputed:
  "totalIssues (summary (validateAndProcessResults fresh ar txt))
     = length (issues (validateAndProcessResults fresh ar txt))
   \<and> critical (summary (validateAndProcessResults fresh ar txt))
     = length (filter (\<lambda>i. severity i = Some ''Critical'')
         (issues (validateAndProcessResults fresh ar txt)))
   \<and> warnings (summary (validateAndProcessResults fresh ar txt))
     = length (filter (\<lambda>i. severity i = Some ''Warning'')
         (issues (validateAndProcessResults fresh ar txt)))
   \<and> suggestions (summary (validateAndProcessResults fresh ar txt))
     = length (filter (\<lambda>i. severity i = Some ''Suggestion'')
         (issues (validateAndProcessResults fresh ar txt)))
   \<and> critical (summary (validateAndProcessResults fresh ar txt))
       + warnings (summary (validateAndProcessResults fresh ar txt))
       + suggestions (summary (validateAndProcessResults fresh ar txt))
     \<le> totalIssues (summary (validateAndProcessResults fresh ar txt))
   \<and> documentLength (summary (validateAndProcessResults fresh ar txt)) = int (length txt)
   \<and> validateAndProcessResults fresh (ar\<lparr>ar_summary := reported\<rparr>) txt
     = validateAndProcessResults fresh ar txt"
proof -
  obtain vs st where l: "validate_loop fresh txt 0
      (case ar_issues ar of None \<Rightarrow> [] | Some is \<Rightarrow> is)
      ([], \<lparr>original = length (case ar_issues ar of None \<Rightarrow> [] | Some is \<Rightarrow> is),
             validated = 0, indexErrors = 0, textMismatches = 0\<rparr>) = (vs, st)"
    by (cases "validate_loop fresh txt 0
      (case ar_issues ar of None \<Rightarrow> [] | Some is \<Rightarrow> is)
      ([], \<lparr>original = length (case ar_issues ar of None \<Rightarrow> [] | Some is \<Rightarrow> is),
             validated = 0, indexErrors = 0, textMismatches = 0\<rparr>)") auto
  have r: "validateAndProcessResults fresh ar txt =
      \<lparr>summary = summarize vs (int (length txt)), issues = vs, validationStats = st\<rparr>"
    by (simp add: validateAndProcessResults_def l)
  show ?thesis
    unfolding validate_summary_irrelevant r
    using summarize_sum [of vs "int (length txt)"]
    by (simp add: summarize_def)
qed

text \<open>
  The theorem at a reply whose own summary reports seven critical findings, with two
  survivors (one \<open>Critical\<close>, one of the unknown severity \<open>Blocker\<close>) and one finding
  out of bounds.
\<close>

theorem C8_summary_recomputed_witness:
  "totalIssues (summary (validateAndProcessResults (\<lambda>k. ''new'')
      \<lparr>ar_summary = Some \<lparr>totalIssues = 7, critical = 7, warnings = 0, suggestions = 0,
                            documentLength = 0\<rparr>,
       ar_issues = Some [finding ''Critical'' 2 7 ''cdefg'', finding ''Blocker'' 0 2 ''ab'',
                         finding ''Warning'' 2 20 ''x'']\<rparr>
      ''abcdefghij'')) = 2
   \<and> critical (summary (validateAndProcessResults (\<lambda>k. ''new'')
      \<lparr>ar_summary = Some \<lparr>totalIssues = 7, critical = 7, warnings = 0, suggestions = 0,
                            documentLength = 0\<rparr>,
       ar_issues = Some [finding ''Critical'' 2 7 ''cdefg'', finding ''Blocker'' 0 2 ''ab'',
                         finding ''Warning'' 2 20 ''x'']\<rparr>
      ''abcdefghij'')) = 1
   \<and> warnings (summary (validateAndProcessResults (\<lambda>k. ''new'')
      \<lparr>ar_summary = Some \<lparr>totalIssues = 7, critical = 7, warnings = 0, suggestions = 0,
                            documentLength = 0\<rparr>,
       ar_issues = Some [finding ''Critical'' 2 7 ''cdefg'', finding ''Blocker'' 0 2 ''ab'',
                         finding ''Warning'' 2 20 ''x'']\<rparr>
      ''abcdefghij'')) = 0
   \<and> documentLength (summary (validateAndProcessResults (\<lambda>k. ''new'')
      \<lparr>ar_summary = Some \<lparr>totalIssues = 7, critical = 7, warnings = 0, suggestions = 0,
                            documentLength = 0\<rparr>,
       ar_issues = Some [finding ''Critical'' 2 7 ''cdefg'', finding ''Blocker'' 0 2 ''ab'',
                         finding ''Warning'' 2 20 ''x'']\<rparr>
      ''abcdefghij'')) = 10"
proof -
  have survivors: "issues (validateAndProcessResults (\<lambda>k. ''new'')
      \<lparr>ar_summary = Some \<lparr>totalIssues = 7, critical = 7, warnings = 0, suggestions = 0,
                            documentLength = 0\<rparr>,
       ar_issues = Some [finding ''Critical'' 2 7 ''cdefg'', finding ''Blocker'' 0 2 ''ab'',
                         finding ''Warning'' 2 20 ''x'']\<rparr>
      ''abcdefghij'')
    = [finding ''Critical'' 2 7 ''cdefg'', finding ''Blocker'' 0 2 ''ab'']"
    by code_simp
  show ?thesis
    using C8_summary_recomputed [of "\<lambda>k. ''new''"
      "\<lparr>ar_summary = Some \<lparr>totalIssues = 7, critical = 7, warnings = 0, suggestions = 0,
                            documentLength = 0\<rparr>,
       ar_issues = Some [finding ''Critical'' 2 7 ''cdefg'', finding ''Blocker'' 0 2 ''ab'',
                         finding ''Warning'' 2 20 ''x'']\<rparr>"
      "''abcdefghij''"]
    unfolding survivors by (simp add: finding_def)
qed

subsection \<open>Claim C1: offset-form findings\<close>

lemma validate_loop_char:
  "validate_loop fresh dtext k is (vs, st) =
     (vs @ concat (map kept_of (outcomes fresh dtext k is)),
      st\<lparr>validated := validated st + length (concat (map kept_of (outcomes fresh dtext k is))),
         indexErrors := indexErrors st + count_list (outcomes fresh dtext k is) IndexError,
         textMismatches := textMismatches st + count_list (outcomes fresh dtext k is) TextMismatch\<rparr>)"
proof (induction "is" arbitrary: k vs st)
  case Nil
  show ?case by (simp add: outcomes_def)
next
  case (Cons issue rest)
  have o: "outcomes fresh dtext k (issue # rest) =
      check_issue (fresh k) dtext issue # outcomes fresh dtext (Suc k) rest"
    by (simp add: outcomes_def)
  show ?case
    by (cases "check_issue (fresh k) dtext issue") (simp_all add: o Cons.IH)
qed

lemma validate_results_char:
  "issues (validateAndProcessResults fresh ar dtext)
     = concat (map kept_of (outcomes fresh dtext 0 (case ar_issues ar of None \<Rightarrow> [] | Some is \<Rightarrow> is)))"
  "validationStats (validateAndProcessResults fresh ar dtext)
     = \<lparr>original = length (case ar_issues ar of None \<Rightarrow> [] | Some is \<Rightarrow> is),
        validated = length (concat (map kept_of
          (outcomes fresh dtext 0 (case ar_issues ar of None \<Rightarrow> [] | Some is \<Rightarrow> is)))),
        indexErrors = count_list
          (outcomes fresh dtext 0 (case ar_issues ar of None \<Rightarrow> [] | Some is \<Rightarrow> is)) IndexError,
        textMismatches = count_list
          (outcomes fresh dtext 0 (case ar_issues ar of None \<Rightarrow> [] | Some is \<Rightarrow> is)) TextMismatch\<rparr>"
  by (simp_all add: validateAndProcessResults_def validate_loop_char Let_def)

lemma substring_in_bounds:
  assumes "0 \<le> a" and "a < b" and "b \<le> int (length s)"
  shows "substring s a b = take (nat (b - a)) (drop (nat a) s)"
    and "substring s a b \<noteq> []"
  using assms by (auto simp: substring_def Let_def min_def max_def)

lemma ensure_fields_location: "location (ensure_fields fresh issue) = location issue"
  by (simp add: ensure_fields_def)

lemma ensure_fields_complete:
  "issue_id issue = Some i \<Longrightarrow> i \<noteq> [] \<Longrightarrow> autoFixable issue = Some b
     \<Longrightarrow> ensure_fields fresh issue = issue"
  by (simp add: ensure_fields_def)

text \<open>
  C1.  A finding with an offset-form location is rejected and counted under
  \<open>indexErrors\<close> when \<open>startIndex < 0\<close>, \<open>endIndex > len(fullText)\<close> or
  \<open>startIndex \<ge> endIndex\<close>, whatever its text.  Otherwise, with \<open>actual\<close> the text
  between the offsets: it is accepted as it is when \<open>actual\<close> equals the quoted text;
  accepted with the quoted text replaced by \<open>actual\<close> when they differ and their
  similarity is at least \<open>8 / 10\<close>; rejected and counted under \<open>textMismatches\<close>
  when the similarity is below \<open>8 / 10\<close>.  Acceptance fills in a missing identifier
  and a missing \<^verbatim>\<open>autoFixable\<close> and leaves the location alone.  The last three
  conjuncts say what the loop over all findings returns: the accepted findings in order,
  and the two counters as the numbers of findings with the respective outcome.
\<close>

theorem C1_offset_validation:
  "(location issue = Some loc
      \<and> (startIndex loc < 0 \<or> endIndex loc > int (length dtext) \<or> startIndex loc \<ge> endIndex loc)
      \<longrightarrow> check_issue fresh dtext issue = IndexError)
   \<and> (location issue = Some loc \<and> exactText loc = Some quoted
      \<and> 0 \<le> startIndex loc \<and> startIndex loc < endIndex loc \<and> endIndex loc \<le> int (length dtext)
      \<longrightarrow> (substring dtext (startIndex loc) (endIndex loc) = quoted
             \<longrightarrow> check_issue fresh dtext issue = Accepted (ensure_fields fresh issue)
               \<and> location (ensure_fields fresh issue) = location issue
               \<and> (issue_id issue = Some i \<and> i \<noteq> [] \<and> autoFixable issue = Some fx
                    \<longrightarrow> ensure_fields fresh issue = issue))
        \<and> (substring dtext (startIndex loc) (endIndex loc) \<noteq> quoted
             \<and> 8 / 10 \<le> similarity (substring dtext (startIndex loc) (endIndex loc)) quoted
             \<longrightarrow> check_issue fresh dtext issue = Accepted (ensure_fields fresh
                   (issue\<lparr>location := Some (loc\<lparr>exactText :=
                      Some (substring dtext (startIndex loc) (endIndex loc))\<rparr>)\<rparr>)))
        \<and> (similarity (substring dtext (startIndex loc) (endIndex loc)) quoted < 8 / 10
             \<longrightarrow> check_issue fresh dtext issue = TextMismatch))
   \<and> issues (validateAndProcessResults freshes \<lparr>ar_summary = reported, ar_issues = Some found\<rparr> dtext)
       = concat (map kept_of (outcomes freshes dtext 0 found))
   \<and> indexErrors (validationStats
         (validateAndProcessResults freshes \<lparr>ar_summary = reported, ar_issues = Some found\<rparr> dtext))
       = count_list (outcomes freshes dtext 0 found) IndexError
   \<and> textMismatches (validationStats
         (validateAndProcessResults freshes \<lparr>ar_summary = reported, ar_issues = Some found\<rparr> dtext))
       = count_list (outcomes freshes dtext 0 found) TextMismatch"
proof -
  have bounds: "check_issue fresh dtext issue = IndexError"
    if "location issue = Some loc"
      and "startIndex loc < 0 \<or> endIndex loc > int (length dtext) \<or> startIndex loc \<ge> endIndex loc"
    using that by (auto simp: check_issue_def)
  have inb: "\<not> (startIndex loc < 0 \<or> endIndex loc > int (length dtext)
      \<or> startIndex loc \<ge> endIndex loc)"
    if "0 \<le> startIndex loc" "startIndex loc < endIndex loc" "endIndex loc \<le> int (length dtext)"
    using that by auto
  have same: "check_issue fresh dtext issue = Accepted (ensure_fields fresh issue)"
    if "location issue = Some loc" "exactText loc = Some quoted"
      "0 \<le> startIndex loc" "startIndex loc < endIndex loc" "endIndex loc \<le> int (length dtext)"
      "substring dtext (startIndex loc) (endIndex loc) = quoted"
    using that inb by (simp add: check_issue_def)
  have near: "check_issue fresh dtext issue = Accepted (ensure_fields fresh
        (issue\<lparr>location := Some (loc\<lparr>exactText :=
           Some (substring dtext (startIndex loc) (endIndex loc))\<rparr>)\<rparr>))"
    if "location issue = Some loc" "exactText loc = Some quoted"
      "0 \<le> startIndex loc" "startIndex loc < endIndex loc" "endIndex loc \<le> int (length dtext)"
      "substring dtext (startIndex loc) (endIndex loc) \<noteq> quoted"
      "8 / 10 \<le> similarity (substring dtext (startIndex loc) (endIndex loc)) quoted"
    using that inb by (simp add: check_issue_def fuzzyMatch_threshold)
  have far: "check_issue fresh dtext issue = TextMismatch"
    if "location issue = Some loc" "exactText loc = Some quoted"
      "0 \<le> startIndex loc" "startIndex loc < endIndex loc" "endIndex loc \<le> int (length dtext)"
      "similarity (substring dtext (startIndex loc) (endIndex loc)) quoted < 8 / 10"
  proof -
    have ne: "substring dtext (startIndex loc) (endIndex loc) \<noteq> []"
      using that(3-5) by (rule substring_in_bounds(2))
    have "substring dtext (startIndex loc) (endIndex loc) \<noteq> quoted"
    proof
      assume "substring dtext (startIndex loc) (endIndex loc) = quoted"
      then have "similarity (substring dtext (startIndex loc) (endIndex loc)) quoted = 1"
        using ne by (simp add: similarity_same)
      then show False using that(6) by simp
    qed
    then show ?thesis
      using that inb by (simp add: check_issue_def fuzzyMatch_threshold)
  qed
  show ?thesis
    using bounds same near far
    by (simp add: validate_results_char ensure_fields_location ensure_fields_complete)
qed


text \<open>
  The theorem on the text \<open>abcdefghij\<close>: an exact quote, a quote one substitution
  away (ratio \<open>4 / 5\<close>), a quote of ratio \<open>2 / 3\<close>, and three findings out of bounds.
\<close>

lemma sub1: "substring ''abcdefghij'' 2 7 = ''cdefg''"
  by (simp add: substring_def)

lemma sub2: "substring ''abcdefghij'' 1 7 = ''bcdefg''"
  by (simp add: substring_def)

lemma sim1: "similarity ''cdefg'' ''cdxfg'' = 4 / 5"
  by (simp add: similarity_def edit_distance_rec)

lemma sim2: "similarity ''bcdefg'' ''cdxfg'' = 2 / 3"
  by (simp add: similarity_def edit_distance_rec)

theorem C1_offset_validation_witness:
  "check_issue ''new'' ''abcdefghij'' (finding ''Warning'' 2 7 ''cdefg'') = Accepted (finding ''Warning'' 2 7 ''cdefg'')
   \<and> check_issue ''new'' ''abcdefghij'' (finding ''Warning'' 2 7 ''cdxfg'') = Accepted (finding ''Warning'' 2 7 ''cdefg'')
   \<and> check_issue ''new'' ''abcdefghij'' (finding ''Warning'' 1 7 ''cdxfg'') = TextMismatch
   \<and> check_issue ''new'' ''abcdefghij'' (finding ''Warning'' (- 1) 7 ''cdefg'') = IndexError
   \<and> check_issue ''new'' ''abcdefghij'' (finding ''Warning'' 2 11 ''cdefg'') = IndexError
   \<and> check_issue ''new'' ''abcdefghij'' (finding ''Warning'' 7 7 ''cdefg'') = IndexError
   \<and> validationStats (validateAndProcessResults (\<lambda>k. ''new'')
         \<lparr>ar_summary = None,
          ar_issues = Some [finding ''Warning'' 2 7 ''cdefg'', finding ''Warning'' 2 7 ''cdxfg'',
                            finding ''Warning'' 1 7 ''cdxfg'', finding ''Warning'' (- 1) 7 ''cdefg'']\<rparr>
         ''abcdefghij'')
       = \<lparr>original = 4, validated = 2, indexErrors = 1, textMismatches = 1\<rparr>"
proof -
  have a: "check_issue ''new'' ''abcdefghij'' (finding ''Warning'' 2 7 ''cdefg'') = Accepted (finding ''Warning'' 2 7 ''cdefg'')"
    using C1_offset_validation [where issue = "finding ''Warning'' 2 7 ''cdefg''" and dtext = "''abcdefghij''"
        and loc = "\<lparr>startIndex = 2, endIndex = 7, exactText = Some ''cdefg''\<rparr>"
        and quoted = "''cdefg''" and fresh = "''new''"]
    by (simp add: finding_def sub1 ensure_fields_def)
  have b: "check_issue ''new'' ''abcdefghij'' (finding ''Warning'' 2 7 ''cdxfg'') = Accepted (finding ''Warning'' 2 7 ''cdefg'')"
    using C1_offset_validation [where issue = "finding ''Warning'' 2 7 ''cdxfg''" and dtext = "''abcdefghij''"
        and loc = "\<lparr>startIndex = 2, endIndex = 7, exactText = Some ''cdxfg''\<rparr>"
        and quoted = "''cdxfg''" and fresh = "''new''"]
    by (simp add: finding_def sub1 sim1 ensure_fields_def)
  have c: "check_issue ''new'' ''abcdefghij'' (finding ''Warning'' 1 7 ''cdxfg'') = TextMismatch"
    using C1_offset_validation [where issue = "finding ''Warning'' 1 7 ''cdxfg''" and dtext = "''abcdefghij''"
        and loc = "\<lparr>startIndex = 1, endIndex = 7, exactText = Some ''cdxfg''\<rparr>"
        and quoted = "''cdxfg''" and fresh = "''new''"]
    by (simp add: finding_def sub2 sim2)
  have d: "check_issue ''new'' ''abcdefghij'' (finding ''Warning'' (- 1) 7 ''cdefg'') = IndexError"
    using C1_offset_validation [where issue = "finding ''Warning'' (- 1) 7 ''cdefg''" and dtext = "''abcdefghij''"
        and loc = "\<lparr>startIndex = - 1, endIndex = 7, exactText = Some ''cdefg''\<rparr>"
        and fresh = "''new''"]
    by (simp add: finding_def)
  have e: "check_issue ''new'' ''abcdefghij'' (finding ''Warning'' 2 11 ''cdefg'') = IndexError"
    using C1_offset_validation [where issue = "finding ''Warning'' 2 11 ''cdefg''" and dtext = "''abcdefghij''"
        and loc = "\<lparr>startIndex = 2, endIndex = 11, exactText = Some ''cdefg''\<rparr>"
        and fresh = "''new''"]
    by (simp add: finding_def)
  have f: "check_issue ''new'' ''abcdefghij'' (finding ''Warning'' 7 7 ''cdefg'') = IndexError"
    using C1_offset_validation [where issue = "finding ''Warning'' 7 7 ''cdefg''" and dtext = "''abcdefghij''"
        and loc = "\<lparr>startIndex = 7, endIndex = 7, exactText = Some ''cdefg''\<rparr>"
        and fresh = "''new''"]
    by (simp add: finding_def)
  have o: "outcomes (\<lambda>k. ''new'') ''abcdefghij'' 0
             [finding ''Warning'' 2 7 ''cdefg'', finding ''Warning'' 2 7 ''cdxfg'',
              finding ''Warning'' 1 7 ''cdxfg'', finding ''Warning'' (- 1) 7 ''cdefg'']
           = [Accepted (finding ''Warning'' 2 7 ''cdefg''), Accepted (finding ''Warning'' 2 7 ''cdefg''),
              TextMismatch, IndexError]"
    by (simp add: outcomes_def a b c d)
  have g: "validationStats (validateAndProcessResults (\<lambda>k. ''new'')
         \<lparr>ar_summary = None,
          ar_issues = Some [finding ''Warning'' 2 7 ''cdefg'', finding ''Warning'' 2 7 ''cdxfg'',
                            finding ''Warning'' 1 7 ''cdxfg'', finding ''Warning'' (- 1) 7 ''cdefg'']\<rparr>
         ''abcdefghij'')
       = \<lparr>original = 4, validated = 2, indexErrors = 1, textMismatches = 1\<rparr>"
    by (simp add: validate_results_char o)
  show ?thesis using a b c d e f g by simp
qed

subsection \<open>The analysis: calls made and errors raised\<close>

lemma long_text_facts: "length long_text = 100" "long_text \<noteq> []"
  by (auto simp: long_text_def)

lemma rethrow_too_large:
  "catch_rethrow too_large =
     new_Error ''Analysis failed: Document too large. Maximum size is 200,000 characters.''"
  by code_simp

lemma rethrow_invalid_json:
  "catch_rethrow invalid_json = new_Error ''Analysis failed: Invalid JSON response from Claude''"
  by code_simp

lemma analyze_try_calls:
  "snd (analyzeDocument_try create json_parse fresh dtext)
     = (if length dtext > 200000 then [] else [dtext])"
  by (simp add: analyzeDocument_try_def split: sum.splits option.splits)

lemma analyze_calls:
  "snd (analyzeDocument create json_parse fresh dtext)
     = (if length dtext > 200000 then [] else [dtext])"
  using analyze_try_calls [of create json_parse fresh dtext]
  by (cases "analyzeDocument_try create json_parse fresh dtext")
     (auto simp: analyzeDocument_def split: sum.splits)

lemma analyze_oversized:
  "length dtext > 200000 \<Longrightarrow>
     analyzeDocument create json_parse fresh dtext = (Inl (catch_rethrow too_large), [])"
  by (simp add: analyzeDocument_def analyzeDocument_try_def)

lemma analyze_try_calls_v2:
  "snd (analyzeDocument_try_v2 create json_parse fresh d)
     = (if (case js_length (fullText d) of None \<Rightarrow> False | Some n \<Rightarrow> n > 200000)
        then [] else [d])"
  by (simp add: analyzeDocument_try_v2_def split: sum.splits option.splits)

lemma analyze_calls_v2:
  "snd (analyzeDocument_v2 create json_parse fresh d)
     = (if (case js_length (fullText d) of None \<Rightarrow> False | Some n \<Rightarrow> n > 200000)
        then [] else [d])"
  using analyze_try_calls_v2 [of create json_parse fresh d]
  by (cases "analyzeDocument_try_v2 create json_parse fresh d")
     (auto simp: analyzeDocument_v2_def split: sum.splits)

lemma analyze_oversized_v2:
  "(case js_length (fullText d) of None \<Rightarrow> False | Some n \<Rightarrow> n > 200000) \<Longrightarrow>
     analyzeDocument_v2 create json_parse fresh d = (Inl (catch_rethrow too_large), [])"
  by (simp add: analyzeDocument_v2_def analyzeDocument_try_v2_def)

lemma new_Error_inject: "(new_Error a = new_Error b) = (a = b)"
  by (simp add: new_Error_def)

lemma rethrow_json_not_size: "catch_rethrow invalid_json \<noteq> catch_rethrow too_large"
  by (simp add: rethrow_invalid_json rethrow_too_large new_Error_inject)

lemma analyze_in_size:
  assumes "length dtext \<le> 200000"
  shows "analyzeDocument create json_parse fresh dtext =
           (case create dtext of
              Inl e \<Rightarrow> (Inl (catch_rethrow e), [dtext])
            | Inr content \<Rightarrow>
                (case json_parse (jsonText content) of
                   None \<Rightarrow> (Inl (catch_rethrow invalid_json), [dtext])
                 | Some ar \<Rightarrow> (Inr (validateAndProcessResults fresh ar dtext), [dtext])))"
  using assms
  by (simp add: analyzeDocument_def analyzeDocument_try_def split: sum.splits option.splits)

lemma analyze_in_size_v2:
  assumes "\<not> (case js_length (fullText d) of None \<Rightarrow> False | Some n \<Rightarrow> n > 200000)"
  shows "analyzeDocument_v2 create json_parse fresh d =
           (case create d of
              Inl e \<Rightarrow> (Inl (catch_rethrow e), [d])
            | Inr content \<Rightarrow>
                (case json_parse (jsonText content) of
                   None \<Rightarrow> (Inl (catch_rethrow invalid_json), [d])
                 | Some ar \<Rightarrow> (Inr (validateAndProcessResults_v2 fresh ar d), [d])))"
  using assms
  by (simp add: analyzeDocument_v2_def analyzeDocument_try_v2_def split: sum.splits option.splits)

lemma analyze_size_error_iff:
  assumes "\<And>e. create dtext = Inl e \<Longrightarrow> catch_rethrow e \<noteq> catch_rethrow too_large"
  shows "(fst (analyzeDocument create json_parse fresh dtext) = Inl (catch_rethrow too_large))
           = (length dtext > 200000)"
proof (cases "length dtext > 200000")
  case True
  then show ?thesis by (simp add: analyze_oversized)
next
  case False
  then have le: "length dtext \<le> 200000" by simp
  have "fst (analyzeDocument create json_parse fresh dtext) \<noteq> Inl (catch_rethrow too_large)"
    unfolding analyze_in_size [OF le]
    using assms rethrow_json_not_size
    by (auto split: sum.splits option.splits)
  then show ?thesis using False by simp
qed

lemma analyze_size_error_iff_v2:
  assumes "\<And>e. create d = Inl e \<Longrightarrow> catch_rethrow e \<noteq> catch_rethrow too_large"
  shows "(fst (analyzeDocument_v2 create json_parse fresh d) = Inl (catch_rethrow too_large))
           = (case js_length (fullText d) of None \<Rightarrow> False | Some n \<Rightarrow> n > 200000)"
proof (cases "case js_length (fullText d) of None \<Rightarrow> False | Some n \<Rightarrow> n > 200000")
  case True
  then show ?thesis by (simp add: analyze_oversized_v2)
next
  case False
  have "fst (analyzeDocument_v2 create json_parse fresh d) \<noteq> Inl (catch_rethrow too_large)"
    unfolding analyze_in_size_v2 [OF False]
    using assms rethrow_json_not_size
    by (auto split: sum.splits option.splits)
  then show ?thesis using False by simp
qed

lemma rethrow_rate_limited:
  "catch_rethrow rate_limited = new_Error ''Rate limit exceeded. Please wait and try again.''"
  by code_simp

subsection \<open>Claim C9: the size check precedes the model call\<close>

text \<open>
  C9.  When the text is longer than 200,000 units, \<^verbatim>\<open>analyzeDocument\<close> fails with the
  error of the size check and has made no call to the external model.  When the text is
  not longer, the model is called once with that text and the outcome is decided by that
  call alone: an error of the call, rethrown by the \<^verbatim>\<open>catch\<close> clause; the error for
  invalid JSON; or the validated result.  So, unless the model call itself raises an
  error that the \<^verbatim>\<open>catch\<close> clause turns into the very error of the size check,
  \<^verbatim>\<open>analyzeDocument\<close> fails with that error exactly when the text is longer than
  200,000 units; and it fails with it without a model call exactly then, whatever the
  model call does.  The same holds for the second variant, whose check reads the length
  of \<^verbatim>\<open>fullText\<close> when there is one.  The error that leaves the function carries the
  message of the size check behind the prefix the \<^verbatim>\<open>catch\<close> clause adds.
\<close>

theorem C9_size_check:
  "(length dtext > 200000
      \<longrightarrow> analyzeDocument create json_parse fresh dtext = (Inl (catch_rethrow too_large), []))
   \<and> (length dtext \<le> 200000
      \<longrightarrow> analyzeDocument create json_parse fresh dtext =
            (case create dtext of
               Inl e \<Rightarrow> (Inl (catch_rethrow e), [dtext])
             | Inr content \<Rightarrow>
                 (case json_parse (jsonText content) of
                    None \<Rightarrow> (Inl (catch_rethrow invalid_json), [dtext])
                  | Some ar \<Rightarrow> (Inr (validateAndProcessResults fresh ar dtext), [dtext]))))
   \<and> ((\<forall>e. create dtext = Inl e \<longrightarrow> catch_rethrow e \<noteq> catch_rethrow too_large)
      \<longrightarrow> (fst (analyzeDocument create json_parse fresh dtext) = Inl (catch_rethrow too_large))
            = (length dtext > 200000))
   \<and> (analyzeDocument create json_parse fresh dtext = (Inl (catch_rethrow too_large), []))
     = (length dtext > 200000)
   \<and> (length dtext \<le> 200000 \<longrightarrow> snd (analyzeDocument create json_parse fresh dtext) = [dtext])
   \<and> ((case js_length (fullText d) of None \<Rightarrow> False | Some n \<Rightarrow> n > 200000)
      \<longrightarrow> analyzeDocument_v2 create2 json_parse2 fresh d = (Inl (catch_rethrow too_large), []))
   \<and> (\<not> (case js_length (fullText d) of None \<Rightarrow> False | Some n \<Rightarrow> n > 200000)
      \<longrightarrow> analyzeDocument_v2 create2 json_parse2 fresh d =
            (case create2 d of
               Inl e \<Rightarrow> (Inl (catch_rethrow e), [d])
             | Inr content \<Rightarrow>
                 (case json_parse2 (jsonText content) of
                    None \<Rightarrow> (Inl (catch_rethrow invalid_json), [d])
                  | Some ar \<Rightarrow> (Inr (validateAndProcessResults_v2 fresh ar d), [d]))))
   \<and> ((\<forall>e. create2 d = Inl e \<longrightarrow> catch_rethrow e \<noteq> catch_rethrow too_large)
      \<longrightarrow> (fst (analyzeDocument_v2 create2 json_parse2 fresh d) = Inl (catch_rethrow too_large))
            = (case js_length (fullText d) of None \<Rightarrow> False | Some n \<Rightarrow> n > 200000))
   \<and> (analyzeDocument_v2 create2 json_parse2 fresh d = (Inl (catch_rethrow too_large), []))
     = (case js_length (fullText d) of None \<Rightarrow> False | Some n \<Rightarrow> n > 200000)
   \<and> (\<not> (case js_length (fullText d) of None \<Rightarrow> False | Some n \<Rightarrow> n > 200000)
        \<longrightarrow> snd (analyzeDocument_v2 create2 json_parse2 fresh d) = [d])
   \<and> catch_rethrow too_large =
       new_Error ''Analysis failed: Document too large. Maximum size is 200,000 characters.''"
proof -
  have a: "(analyzeDocument create json_parse fresh dtext = (Inl (catch_rethrow too_large), []))
     = (length dtext > 200000)"
  proof (cases "length dtext > 200000")
    case True
    then show ?thesis by (simp add: analyze_oversized)
  next
    case False
    then have "snd (analyzeDocument create json_parse fresh dtext) \<noteq> []"
      by (simp add: analyze_calls)
    then show ?thesis using False by auto
  qed
  have b: "(analyzeDocument_v2 create2 json_parse2 fresh d = (Inl (catch_rethrow too_large), []))
     = (case js_length (fullText d) of None \<Rightarrow> False | Some n \<Rightarrow> n > 200000)"
  proof (cases "case js_length (fullText d) of None \<Rightarrow> False | Some n \<Rightarrow> n > 200000")
    case True
    then show ?thesis by (simp add: analyze_oversized_v2)
  next
    case False
    then have "snd (analyzeDocument_v2 create2 json_parse2 fresh d) \<noteq> []"
      by (simp add: analyze_calls_v2)
    then show ?thesis using False by auto
  qed
  have c: "(\<forall>e. create dtext = Inl e \<longrightarrow> catch_rethrow e \<noteq> catch_rethrow too_large)
      \<longrightarrow> (fst (analyzeDocument create json_parse fresh dtext) = Inl (catch_rethrow too_large))
            = (length dtext > 200000)"
    using analyze_size_error_iff [of create dtext json_parse fresh] by blast
  have c2: "(\<forall>e. create2 d = Inl e \<longrightarrow> catch_rethrow e \<noteq> catch_rethrow too_large)
      \<longrightarrow> (fst (analyzeDocument_v2 create2 json_parse2 fresh d) = Inl (catch_rethrow too_large))
            = (case js_length (fullText d) of None \<Rightarrow> False | Some n \<Rightarrow> n > 200000)"
    using analyze_size_error_iff_v2 [of create2 d json_parse2 fresh] by blast
  have p: "length dtext \<le> 200000
      \<longrightarrow> analyzeDocument create json_parse fresh dtext =
            (case create dtext of
               Inl e \<Rightarrow> (Inl (catch_rethrow e), [dtext])
             | Inr content \<Rightarrow>
                 (case json_parse (jsonText content) of
                    None \<Rightarrow> (Inl (catch_rethrow invalid_json), [dtext])
                  | Some ar \<Rightarrow> (Inr (validateAndProcessResults fresh ar dtext), [dtext])))"
    using analyze_in_size [of dtext create json_parse fresh] by blast
  have p2: "\<not> (case js_length (fullText d) of None \<Rightarrow> False | Some n \<Rightarrow> n > 200000)
      \<longrightarrow> analyzeDocument_v2 create2 json_parse2 fresh d =
            (case create2 d of
               Inl e \<Rightarrow> (Inl (catch_rethrow e), [d])
             | Inr content \<Rightarrow>
                 (case json_parse2 (jsonText content) of
                    None \<Rightarrow> (Inl (catch_rethrow invalid_json), [d])
                  | Some ar \<Rightarrow> (Inr (validateAndProcessResults_v2 fresh ar d), [d])))"
    using analyze_in_size_v2 [of d create2 json_parse2 fresh] by blast
  have o: "length dtext > 200000
      \<longrightarrow> analyzeDocument create json_parse fresh dtext = (Inl (catch_rethrow too_large), [])"
    by (simp add: analyze_oversized)
  have o2: "(case js_length (fullText d) of None \<Rightarrow> False | Some n \<Rightarrow> n > 200000)
      \<longrightarrow> analyzeDocument_v2 create2 json_parse2 fresh d = (Inl (catch_rethrow too_large), [])"
    by (simp add: analyze_oversized_v2)
  have l: "length dtext \<le> 200000 \<longrightarrow> snd (analyzeDocument create json_parse fresh dtext) = [dtext]"
    by (simp add: analyze_calls)
  have l2: "\<not> (case js_length (fullText d) of None \<Rightarrow> False | Some n \<Rightarrow> n > 200000)
        \<longrightarrow> snd (analyzeDocument_v2 create2 json_parse2 fresh d) = [d]"
    by (simp add: analyze_calls_v2)
  show ?thesis
    using o p c a l o2 p2 c2 b l2 rethrow_too_large by blast
qed


text \<open>
  The theorem at a text of 200,001 units; at a text of 200,000 units whose model call
  is refused for a rate limit, which fails with the rate-limit error and not with the
  size error; at a reply that does not parse; and at structured documents with a text
  of 200,001 units and with no text.
\<close>

theorem C9_size_check_witness:
  "analyzeDocument (\<lambda>t. Inr ''{}'') (\<lambda>t. None) (\<lambda>k. ''new'') (replicate 200001 CHR ''a'')
     = (Inl (new_Error ''Analysis failed: Document too large. Maximum size is 200,000 characters.''), [])
   \<and> analyzeDocument (\<lambda>t. Inl rate_limited) (\<lambda>t. None) (\<lambda>k. ''new'') (replicate 200000 CHR ''a'')
     = (Inl (new_Error ''Rate limit exceeded. Please wait and try again.''),
        [replicate 200000 CHR ''a''])
   \<and> fst (analyzeDocument (\<lambda>t. Inl rate_limited) (\<lambda>t. None) (\<lambda>k. ''new'')
          (replicate 200000 CHR ''a''))
     \<noteq> Inl (new_Error ''Analysis failed: Document too large. Maximum size is 200,000 characters.'')
   \<and> analyzeDocument (\<lambda>t. Inr ''{a:1'') (\<lambda>t. None) (\<lambda>k. ''new'') ''doc''
     = (Inl (new_Error ''Analysis failed: Invalid JSON response from Claude''), [''doc''])
   \<and> analyzeDocument_v2 (\<lambda>t. Inr ''{}'') (\<lambda>t. None) (\<lambda>k. ''new'')
       \<lparr>fullText = Str (replicate 200001 CHR ''a''), paragraphs = Paragraphs []\<rparr>
     = (Inl (new_Error ''Analysis failed: Document too large. Maximum size is 200,000 characters.''), [])
   \<and> analyzeDocument_v2 (\<lambda>t. Inl rate_limited) (\<lambda>t. None) (\<lambda>k. ''new'')
       \<lparr>fullText = Nullish, paragraphs = NoParagraphs\<rparr>
     = (Inl (new_Error ''Rate limit exceeded. Please wait and try again.''),
        [\<lparr>fullText = Nullish, paragraphs = NoParagraphs\<rparr>])"
proof -
  have big: "length (replicate 200001 CHR ''a'') > 200000" by simp
  have ok: "length (replicate 200000 CHR ''a'') \<le> 200000" by simp
  have ne: "\<forall>e. (\<lambda>t. Inl rate_limited) (replicate 200000 CHR ''a'') = Inl e
              \<longrightarrow> catch_rethrow e \<noteq> catch_rethrow too_large"
    by (simp add: rethrow_rate_limited rethrow_too_large new_Error_inject)
  have a: "analyzeDocument (\<lambda>t. Inr ''{}'') (\<lambda>t. None) (\<lambda>k. ''new'') (replicate 200001 CHR ''a'')
     = (Inl (new_Error ''Analysis failed: Document too large. Maximum size is 200,000 characters.''), [])"
    using C9_size_check [of "replicate 200001 CHR ''a''" "\<lambda>t. Inr ''{}''" "\<lambda>t. None" "\<lambda>k. ''new''"] big
    by simp
  have b: "analyzeDocument (\<lambda>t. Inl rate_limited) (\<lambda>t. None) (\<lambda>k. ''new'') (replicate 200000 CHR ''a'')
     = (Inl (new_Error ''Rate limit exceeded. Please wait and try again.''),
        [replicate 200000 CHR ''a''])"
    using C9_size_check [of "replicate 200000 CHR ''a''" "\<lambda>t. Inl rate_limited" "\<lambda>t. None" "\<lambda>k. ''new''"] ok
    by (simp add: rethrow_rate_limited)
  have c: "fst (analyzeDocument (\<lambda>t. Inl rate_limited) (\<lambda>t. None) (\<lambda>k. ''new'')
          (replicate 200000 CHR ''a''))
     \<noteq> Inl (new_Error ''Analysis failed: Document too large. Maximum size is 200,000 characters.'')"
    using C9_size_check [of "replicate 200000 CHR ''a''" "\<lambda>t. Inl rate_limited" "\<lambda>t. None" "\<lambda>k. ''new''"]
      ok ne
    by (simp add: rethrow_too_large)
  have d: "analyzeDocument (\<lambda>t. Inr ''{a:1'') (\<lambda>t. None) (\<lambda>k. ''new'') ''doc''
     = (Inl (new_Error ''Analysis failed: Invalid JSON response from Claude''), [''doc''])"
    using C9_size_check [of "''doc''" "\<lambda>t. Inr ''{a:1''" "\<lambda>t. None" "\<lambda>k. ''new''"]
    by (simp add: rethrow_invalid_json)
  have e: "analyzeDocument_v2 (\<lambda>t. Inr ''{}'') (\<lambda>t. None) (\<lambda>k. ''new'')
       \<lparr>fullText = Str (replicate 200001 CHR ''a''), paragraphs = Paragraphs []\<rparr>
     = (Inl (new_Error ''Analysis failed: Document too large. Maximum size is 200,000 characters.''), [])"
    using C9_size_check [where ?create2.0 = "\<lambda>t. Inr ''{}''" and ?json_parse2.0 = "\<lambda>t. None"
        and fresh = "\<lambda>k. ''new''"
        and d = "\<lparr>fullText = Str (replicate 200001 CHR ''a''), paragraphs = Paragraphs []\<rparr>"]
    by simp
  have f: "analyzeDocument_v2 (\<lambda>t. Inl rate_limited) (\<lambda>t. None) (\<lambda>k. ''new'')
       \<lparr>fullText = Nullish, paragraphs = NoParagraphs\<rparr>
     = (Inl (new_Error ''Rate limit exceeded. Please wait and try again.''),
        [\<lparr>fullText = Nullish, paragraphs = NoParagraphs\<rparr>])"
    using C9_size_check [where ?create2.0 = "\<lambda>t. Inl rate_limited" and ?json_parse2.0 = "\<lambda>t. None"
        and fresh = "\<lambda>k. ''new''" and d = "\<lparr>fullText = Nullish, paragraphs = NoParagraphs\<rparr>"]
    by (simp add: rethrow_rate_limited)
  show ?thesis using a b c d e f by simp
qed

subsection \<open>Claim C6: extraction and parsing of the reply\<close>

lemma json_match_braces:
  assumes "CHR ''{'' \<notin> set pre" and "CHR ''}'' \<notin> set post"
  shows "json_match (pre @ CHR ''{'' # mid @ CHR ''}'' # post) = Some (CHR ''{'' # mid @ [CHR ''}''])"
proof -
  have d1: "dropWhile (\<lambda>c. c \<noteq> CHR ''{'') (pre @ CHR ''{'' # mid @ CHR ''}'' # post)
              = CHR ''{'' # mid @ CHR ''}'' # post"
    using assms(1) by (auto simp: dropWhile_append3)
  have r: "rev (CHR ''{'' # mid @ CHR ''}'' # post) = rev post @ CHR ''}'' # rev mid @ [CHR ''{'']"
    by simp
  have d2: "dropWhile (\<lambda>c. c \<noteq> CHR ''}'') (rev post @ CHR ''}'' # rev mid @ [CHR ''{''])
              = CHR ''}'' # rev mid @ [CHR ''{'']"
    using assms(2) by (auto simp: dropWhile_append3)
  show ?thesis
    unfolding json_match_def d1 Let_def r d2 by simp
qed

lemma json_match_no_close:
  assumes "CHR ''}'' \<notin> set content"
  shows "json_match content = None"
proof -
  have "set (tl (dropWhile (\<lambda>c. c \<noteq> CHR ''{'') content)) \<subseteq> set content"
    by (metis list.set_sel(2) set_dropWhileD subsetI tl_Nil)
  then show ?thesis
    using assms by (auto simp: json_match_def Let_def)
qed

lemma json_match_no_open:
  assumes "CHR ''{'' \<notin> set content"
  shows "json_match content = None"
proof -
  have "dropWhile (\<lambda>c. c \<noteq> CHR ''{'') content = []"
    using assms by (auto simp: dropWhile_eq_Nil_conv)
  then show ?thesis by (simp add: json_match_def)
qed

lemma analyze_parse_failure:
  assumes "length dtext \<le> 200000" and "create dtext = Inr content"
    and "json_parse (jsonText content) = None"
  shows "analyzeDocument create json_parse fresh dtext
           = (Inl (new_Error ''Analysis failed: Invalid JSON response from Claude''), [dtext])"
  using assms by (simp add: analyzeDocument_def analyzeDocument_try_def rethrow_invalid_json)

lemma analyze_parse_success:
  assumes "length dtext \<le> 200000" and "create dtext = Inr content"
    and "json_parse (jsonText content) = Some ar"
  shows "analyzeDocument create json_parse fresh dtext
           = (Inr (validateAndProcessResults fresh ar dtext), [dtext])"
  using assms by (simp add: analyzeDocument_def analyzeDocument_try_def)

text \<open>
  C6.  For every reply of the model: when the reply has an opening brace with a closing
  brace behind it, the text handed to the JSON parser runs from the first opening brace
  through the last closing brace, whatever braces lie between; when the reply has no
  brace, or no closing brace at all (as in JSON cut off before its closing brace), the
  whole reply is handed to the parser; when the parser rejects the text it was handed,
  \<^verbatim>\<open>analyzeDocument\<close> fails with the error for an invalid JSON response and returns
  no result; and when the parser accepts it, the result is built from what it parsed.
\<close>

theorem C6_parser:
  "(CHR ''{'' \<notin> set pre \<and> CHR ''}'' \<notin> set post
      \<longrightarrow> jsonText (pre @ ''{'' @ mid @ ''}'' @ post) = ''{'' @ mid @ ''}'')
   \<and> (CHR ''{'' \<notin> set content \<and> CHR ''}'' \<notin> set content \<longrightarrow> jsonText content = content)
   \<and> (CHR ''}'' \<notin> set content \<longrightarrow> jsonText content = content)
   \<and> (length dtext \<le> 200000 \<and> create dtext = Inr content
        \<and> json_parse (jsonText content) = None
      \<longrightarrow> analyzeDocument create json_parse fresh dtext
            = (Inl (new_Error ''Analysis failed: Invalid JSON response from Claude''), [dtext]))
   \<and> (length dtext \<le> 200000 \<and> create dtext = Inr content
        \<and> json_parse (jsonText content) = Some ar
      \<longrightarrow> analyzeDocument create json_parse fresh dtext
            = (Inr (validateAndProcessResults fresh ar dtext), [dtext]))"
  by (simp add: jsonText_def json_match_braces json_match_no_close analyze_parse_failure
      analyze_parse_success)

text \<open>
  The theorem at a reply with two objects between prose, a reply without braces, a reply
  cut off after \<open>{a:1\<close>, and a reply holding the empty object.
\<close>

theorem C6_parser_witness:
  "jsonText ''Result: {a}{b} bye'' = ''{a}{b}''
   \<and> jsonText ''no object here'' = ''no object here''
   \<and> jsonText ''{a:1'' = ''{a:1''
   \<and> analyzeDocument (\<lambda>t. Inr ''{a:1'') (\<lambda>t. None) (\<lambda>k. ''new'') ''doc''
       = (Inl (new_Error ''Analysis failed: Invalid JSON response from Claude''), [''doc''])
   \<and> analyzeDocument (\<lambda>t. Inr ''Result: {} bye'')
         (\<lambda>t. if t = ''{}'' then Some \<lparr>ar_summary = None, ar_issues = None\<rparr> else None)
         (\<lambda>k. ''new'') ''doc''
       = (Inr \<lparr>summary = \<lparr>totalIssues = 0, critical = 0, warnings = 0, suggestions = 0,
                            documentLength = 3\<rparr>,
               issues = [],
               validationStats = \<lparr>original = 0, validated = 0, indexErrors = 0,
                                   textMismatches = 0\<rparr>\<rparr>, [''doc''])"
proof -
  have a: "jsonText ''Result: {a}{b} bye'' = ''{a}{b}''"
    using C6_parser [where pre = "''Result: ''" and mid = "''a}{b''" and post = "'' bye''"]
    by simp
  have b: "jsonText ''no object here'' = ''no object here''"
    using C6_parser [where content = "''no object here''"] by simp
  have c: "jsonText ''{a:1'' = ''{a:1''"
    using C6_parser [where content = "''{a:1''"] by simp
  have d: "analyzeDocument (\<lambda>t. Inr ''{a:1'') (\<lambda>t. None) (\<lambda>k. ''new'') ''doc''
       = (Inl (new_Error ''Analysis failed: Invalid JSON response from Claude''), [''doc''])"
    using C6_parser [where content = "''{a:1''" and dtext = "''doc''"
        and create = "\<lambda>t. Inr ''{a:1''" and json_parse = "\<lambda>t. None" and fresh = "\<lambda>k. ''new''"]
    by simp
  have j: "jsonText ''Result: {} bye'' = ''{}''"
    using C6_parser [where pre = "''Result: ''" and mid = "[]" and post = "'' bye''"]
    by simp
  have e: "analyzeDocument (\<lambda>t. Inr ''Result: {} bye'')
         (\<lambda>t. if t = ''{}'' then Some \<lparr>ar_summary = None, ar_issues = None\<rparr> else None)
         (\<lambda>k. ''new'') ''doc''
       = (Inr (validateAndProcessResults (\<lambda>k. ''new'') \<lparr>ar_summary = None, ar_issues = None\<rparr> ''doc''),
          [''doc''])"
    using C6_parser [where content = "''Result: {} bye''" and dtext = "''doc''"
        and create = "\<lambda>t. Inr ''Result: {} bye''"
        and json_parse = "\<lambda>t. if t = ''{}'' then Some \<lparr>ar_summary = None, ar_issues = None\<rparr> else None"
        and fresh = "\<lambda>k. ''new''" and ar = "\<lparr>ar_summary = None, ar_issues = None\<rparr>"]
    by (simp add: j)
  have v: "validateAndProcessResults (\<lambda>k. ''new'') \<lparr>ar_summary = None, ar_issues = None\<rparr> ''doc''
      = \<lparr>summary = \<lparr>totalIssues = 0, critical = 0, warnings = 0, suggestions = 0,
                            documentLength = 3\<rparr>,
               issues = [],
               validationStats = \<lparr>original = 0, validated = 0, indexErrors = 0,
                                   textMismatches = 0\<rparr>\<rparr>"
    by (simp add: validateAndProcessResults_def summarize_def)
  show ?thesis using a b c d e v by simp
qed

subsection \<open>Claim C5: the status the handler answers a failed analysis with\<close>

lemma status_new_Error: "status_of_error (new_Error msg) = 500"
  by (simp add: status_of_error_def new_Error_def)

lemma catch_rethrow_new: "\<exists>msg. catch_rethrow e = new_Error msg"
  by (auto simp: catch_rethrow_def)

lemma status_catch_rethrow: "status_of_error (catch_rethrow e) = 500"
  using catch_rethrow_new [of e] by (auto simp: status_new_Error)

lemma analyze_v2_error_status:
  "fst (analyzeDocument_v2 create json_parse fresh d) = Inl e \<Longrightarrow> status_of_error e = 500"
  by (cases "analyzeDocument_try_v2 create json_parse fresh d")
     (auto simp: analyzeDocument_v2_def status_catch_rethrow split: sum.splits)

lemma valid_text_request: "valid (validateRequest (body text_request))"
  by (simp add: text_request_def validateRequest_def text_errors_def mode_errors_def
      user_errors_def long_text_facts)

lemma valid_oversized_request: "valid (validateRequest (body oversized_request))"
  by (simp add: oversized_request_def validateRequest_def text_errors_def mode_errors_def
      user_errors_def long_text_facts)

text \<open>
  C5 does not hold of the code.  The handler chooses the status by the \<^verbatim>\<open>code\<close>
  property of the caught error, but every error that leaves \<^verbatim>\<open>analyzeDocument\<close> is
  built by \<^verbatim>\<open>new Error(message)\<close> in its \<^verbatim>\<open>catch\<close> clause and has no such
  property.  The handler therefore answers 500 to an upstream rate limit, to an upstream
  authentication failure and to a document that is too large, where the claim names
  429, 401 and 413.  The last conjunct holds for every error \<open>e\<close> raised in the body.
\<close>

theorem C5_status_is_500:
  "handler (analyzeDocument_v2 (\<lambda>d. Inl rate_limited) (\<lambda>t. None) (\<lambda>k. ''new'')) text_request
     = (500, [\<lparr>fullText = Str long_text, paragraphs = NoParagraphs\<rparr>])
   \<and> handler (analyzeDocument_v2 (\<lambda>d. Inl unauthenticated) (\<lambda>t. None) (\<lambda>k. ''new'')) text_request
     = (500, [\<lparr>fullText = Str long_text, paragraphs = NoParagraphs\<rparr>])
   \<and> handler (analyzeDocument_v2 (\<lambda>d. Inr ''{}'') (\<lambda>t. None) (\<lambda>k. ''new'')) oversized_request
     = (500, [])
   \<and> status_of_error (catch_rethrow e) = 500"
proof -
  have a: "analyzeDocument_v2 (\<lambda>d. Inl rate_limited) (\<lambda>t. None) (\<lambda>k. ''new'')
             \<lparr>fullText = Str long_text, paragraphs = NoParagraphs\<rparr>
           = (Inl (catch_rethrow rate_limited), [\<lparr>fullText = Str long_text, paragraphs = NoParagraphs\<rparr>])"
    by (simp add: analyzeDocument_v2_def analyzeDocument_try_v2_def long_text_facts)
  have b: "analyzeDocument_v2 (\<lambda>d. Inl unauthenticated) (\<lambda>t. None) (\<lambda>k. ''new'')
             \<lparr>fullText = Str long_text, paragraphs = NoParagraphs\<rparr>
           = (Inl (catch_rethrow unauthenticated), [\<lparr>fullText = Str long_text, paragraphs = NoParagraphs\<rparr>])"
    by (simp add: analyzeDocument_v2_def analyzeDocument_try_v2_def long_text_facts)
  have c: "analyzeDocument_v2 (\<lambda>d. Inr ''{}'') (\<lambda>t. None) (\<lambda>k. ''new'')
             \<lparr>fullText = Str (replicate 200001 CHR ''a''), paragraphs = Paragraphs []\<rparr>
           = (Inl (catch_rethrow too_large), [])"
    by (simp add: analyzeDocument_v2_def analyzeDocument_try_v2_def)
  have d1: "as_document \<lparr>documentText = Str long_text, documentStructure = NoStruct,
                    analysisMode = Nullish, userId = Nullish\<rparr>
            = \<lparr>fullText = Str long_text, paragraphs = NoParagraphs\<rparr>"
    by (simp add: as_document_def)
  show ?thesis
    using valid_text_request valid_oversized_request
    by (simp add: handler_def text_request_def oversized_request_def as_document_def a b c
        status_catch_rethrow)
qed

subsection \<open>Claim C2: paragraph-form findings\<close>

lemma validate_loop_v2_char:
  "validate_loop_v2 fresh d k is (vs, st) =
     (vs @ concat (map kept_of_v2 (outcomes_v2 fresh d k is)),
      st\<lparr>validated_v2 := validated_v2 st
            + length (concat (map kept_of_v2 (outcomes_v2 fresh d k is))),
         invalidParagraphIndex := invalidParagraphIndex st
            + count_list (outcomes_v2 fresh d k is) InvalidParagraphIndex,
         missingSearchableText := missingSearchableText st
            + count_list (outcomes_v2 fresh d k is) MissingSearchableText\<rparr>)"
proof (induction "is" arbitrary: k vs st)
  case Nil
  show ?case by (simp add: outcomes_v2_def)
next
  case (Cons issue rest)
  have o: "outcomes_v2 fresh d k (issue # rest) =
      check_issue_v2 (fresh k) d issue # outcomes_v2 fresh d (Suc k) rest"
    by (simp add: outcomes_v2_def)
  show ?case
    by (cases "check_issue_v2 (fresh k) d issue") (simp_all add: o Cons.IH)
qed

lemma validate_results_v2_char:
  "issues (validateAndProcessResults_v2 fresh \<lparr>ar_summary = reported, ar_issues = Some found\<rparr> d)
     = concat (map kept_of_v2 (outcomes_v2 fresh d 0 found))"
  "validationStats (validateAndProcessResults_v2 fresh \<lparr>ar_summary = reported, ar_issues = Some found\<rparr> d)
     = \<lparr>original_v2 = length found,
        validated_v2 = length (concat (map kept_of_v2 (outcomes_v2 fresh d 0 found))),
        invalidParagraphIndex = count_list (outcomes_v2 fresh d 0 found) InvalidParagraphIndex,
        missingSearchableText = count_list (outcomes_v2 fresh d 0 found) MissingSearchableText\<rparr>"
  by (simp_all add: validateAndProcessResults_v2_def validate_loop_v2_char Let_def)

text \<open>
  C2 as stated fails: the validator of the second variant never compares the searchable
  text with the paragraph.  A finding that points at paragraph 0, whose text is
  \<open>Hello world\<close>, with the searchable text \<open>xyz\<close> is accepted and returned.
\<close>

theorem C2_counterexample:
  "check_issue_v2 ''new'' one_paragraph (finding_v2 0 ''xyz'') = Accepted_v2 (finding_v2 0 ''xyz'')
   \<and> paragraphs one_paragraph = Paragraphs [\<lparr>par_text = ''Hello world''\<rparr>]
   \<and> \<not> sublist ''xyz'' ''Hello world''
   \<and> issues (validateAndProcessResults_v2 (\<lambda>k. ''new'')
         \<lparr>ar_summary = None, ar_issues = Some [finding_v2 0 ''xyz'']\<rparr> one_paragraph)
       = [finding_v2 0 ''xyz'']"
  by code_simp

text \<open>
  C2, amended.  A paragraph-form finding is rejected and counted under
  \<open>invalidParagraphIndex\<close> when it has no location or no paragraph index, or when the
  index is negative or not below the number of paragraphs; it is rejected and counted
  under \<open>missingSearchableText\<close> when the index is in range and the searchable text is
  absent or empty; every other finding is accepted, whatever the text of the paragraph.
  There is no fuzzy fallback and no containment check.  The last three conjuncts say
  what the loop over all findings returns.
\<close>

theorem C2_paragraph_validation:
  "(location issue = None \<or> (location issue = Some loc \<and> paragraphIndex loc = None)
      \<longrightarrow> check_issue_v2 fresh d issue = InvalidParagraphIndex)
   \<and> (location issue = Some loc \<and> paragraphIndex loc = Some pix \<and> paragraphs d = Paragraphs ps
        \<and> (pix < 0 \<or> pix \<ge> int (length ps))
      \<longrightarrow> check_issue_v2 fresh d issue = InvalidParagraphIndex)
   \<and> (location issue = Some loc \<and> paragraphIndex loc = Some pix \<and> paragraphs d = Paragraphs ps
        \<and> 0 \<le> pix \<and> pix < int (length ps)
        \<and> (searchableText loc = None \<or> searchableText loc = Some [])
      \<longrightarrow> check_issue_v2 fresh d issue = MissingSearchableText)
   \<and> (location issue = Some loc \<and> paragraphIndex loc = Some pix \<and> paragraphs d = Paragraphs ps
        \<and> 0 \<le> pix \<and> pix < int (length ps)
        \<and> searchableText loc = Some t \<and> t \<noteq> []
      \<longrightarrow> check_issue_v2 fresh d issue = Accepted_v2 (ensure_fields fresh issue))
   \<and> issues (validateAndProcessResults_v2 freshes
         \<lparr>ar_summary = reported, ar_issues = Some found\<rparr> d)
       = concat (map kept_of_v2 (outcomes_v2 freshes d 0 found))
   \<and> invalidParagraphIndex (validationStats (validateAndProcessResults_v2 freshes
         \<lparr>ar_summary = reported, ar_issues = Some found\<rparr> d))
       = count_list (outcomes_v2 freshes d 0 found) InvalidParagraphIndex
   \<and> missingSearchableText (validationStats (validateAndProcessResults_v2 freshes
         \<lparr>ar_summary = reported, ar_issues = Some found\<rparr> d))
       = count_list (outcomes_v2 freshes d 0 found) MissingSearchableText"
  by (auto simp: check_issue_v2_def check_searchable_def validate_results_v2_char)

text \<open>
  The amended theorem on a document of one paragraph: two findings in range (one whose
  text occurs in the paragraph, one whose text does not), two indices out of range, an
  empty searchable text and a finding without location.
\<close>

theorem C2_paragraph_validation_witness:
  "check_issue_v2 ''new'' one_paragraph (finding_v2 0 ''Hello'') = Accepted_v2 (finding_v2 0 ''Hello'')
   \<and> check_issue_v2 ''new'' one_paragraph (finding_v2 0 ''xyz'') = Accepted_v2 (finding_v2 0 ''xyz'')
   \<and> check_issue_v2 ''new'' one_paragraph (finding_v2 1 ''Hello'') = InvalidParagraphIndex
   \<and> check_issue_v2 ''new'' one_paragraph (finding_v2 (- 1) ''Hello'') = InvalidParagraphIndex
   \<and> check_issue_v2 ''new'' one_paragraph (finding_v2 0 '''') = MissingSearchableText
   \<and> check_issue_v2 ''new'' one_paragraph
        \<lparr>issue_id = None, severity = None, autoFixable = None, location = None\<rparr>
       = InvalidParagraphIndex"
proof -
  have p: "paragraphs one_paragraph = Paragraphs [\<lparr>par_text = ''Hello world''\<rparr>]"
    by (simp add: one_paragraph_def)
  have a: "check_issue_v2 ''new'' one_paragraph (finding_v2 0 ''Hello'') = Accepted_v2 (finding_v2 0 ''Hello'')"
    using C2_paragraph_validation [where issue = "finding_v2 0 ''Hello''" and d = one_paragraph
        and loc = "\<lparr>paragraphIndex = Some 0, searchableText = Some ''Hello''\<rparr>" and pix = 0
        and ps = "[\<lparr>par_text = ''Hello world''\<rparr>]" and t = "''Hello''" and fresh = "''new''"]
    by (simp add: p finding_v2_def ensure_fields_def)
  have b: "check_issue_v2 ''new'' one_paragraph (finding_v2 0 ''xyz'') = Accepted_v2 (finding_v2 0 ''xyz'')"
    using C2_paragraph_validation [where issue = "finding_v2 0 ''xyz''" and d = one_paragraph
        and loc = "\<lparr>paragraphIndex = Some 0, searchableText = Some ''xyz''\<rparr>" and pix = 0
        and ps = "[\<lparr>par_text = ''Hello world''\<rparr>]" and t = "''xyz''" and fresh = "''new''"]
    by (simp add: p finding_v2_def ensure_fields_def)
  have c: "check_issue_v2 ''new'' one_paragraph (finding_v2 1 ''Hello'') = InvalidParagraphIndex"
    using C2_paragraph_validation [where issue = "finding_v2 1 ''Hello''" and d = one_paragraph
        and loc = "\<lparr>paragraphIndex = Some 1, searchableText = Some ''Hello''\<rparr>" and pix = 1
        and ps = "[\<lparr>par_text = ''Hello world''\<rparr>]" and fresh = "''new''"]
    by (simp add: p finding_v2_def)
  have d: "check_issue_v2 ''new'' one_paragraph (finding_v2 (- 1) ''Hello'') = InvalidParagraphIndex"
    using C2_paragraph_validation [where issue = "finding_v2 (- 1) ''Hello''" and d = one_paragraph
        and loc = "\<lparr>paragraphIndex = Some (- 1), searchableText = Some ''Hello''\<rparr>" and pix = "- 1"
        and ps = "[\<lparr>par_text = ''Hello world''\<rparr>]" and fresh = "''new''"]
    by (simp add: p finding_v2_def)
  have e: "check_issue_v2 ''new'' one_paragraph (finding_v2 0 []) = MissingSearchableText"
    using C2_paragraph_validation [where issue = "finding_v2 0 []" and d = one_paragraph
        and loc = "\<lparr>paragraphIndex = Some 0, searchableText = Some []\<rparr>" and pix = 0
        and ps = "[\<lparr>par_text = ''Hello world''\<rparr>]" and fresh = "''new''"]
    by (simp add: p finding_v2_def)
  have f: "check_issue_v2 ''new'' one_paragraph
        \<lparr>issue_id = None, severity = None, autoFixable = None, location = None\<rparr>
       = InvalidParagraphIndex"
    using C2_paragraph_validation [where issue = "\<lparr>issue_id = None, severity = None,
        autoFixable = None, location = None\<rparr>" and d = one_paragraph and fresh = "''new''"]
    by simp
  show ?thesis using a b c d e f by simp
qed

subsection \<open>Claim C4: five admissions, then a refusal\<close>

lemma cleanup_keeps_live:
  assumes "s key = Some d" and "requests d \<noteq> []" and "\<forall>t\<in>set (requests d). cutoff < t"
  shows "cleanupOldEntries cutoff clock s key = Some d"
proof -
  have "filter (\<lambda>time. time > cutoff) (requests d) = requests d"
    using assms(3) by (simp add: filter_id_conv)
  then show ?thesis using assms(1,2) by (simp add: cleanupOldEntries_def)
qed

lemma cleanup_keeps_absent:
  "s key = None \<Longrightarrow> cleanupOldEntries cutoff clock s key = None"
  by (simp add: cleanupOldEntries_def)

lemma rateLimit_fresh:
  assumes "s key = None" and "0 < mx"
  shows "fst (rateLimit W mx key now sweep s)
           = \<lparr>success = True, limit = mx, remaining = mx - 1, retryAfter = Finite 0,
              resetAt = now + W\<rparr>"
    and "snd (rateLimit W mx key now sweep s) key
           = Some \<lparr>requests = [now], resetTime = now + W\<rparr>"
  using assms
  by (cases sweep; simp add: rateLimit_def Let_def cleanup_keeps_absent)+

lemma rateLimit_admit:
  assumes "s key = Some d" and "requests d \<noteq> []"
    and "\<forall>t\<in>set (requests d). now - W < t" and "int (length (requests d)) < mx"
  shows "fst (rateLimit W mx key now sweep s)
           = \<lparr>success = True, limit = mx, remaining = mx - int (length (requests d)) - 1,
              retryAfter = Finite 0, resetAt = now + W\<rparr>"
    and "snd (rateLimit W mx key now sweep s) key
           = Some \<lparr>requests = requests d @ [now], resetTime = now + W\<rparr>"
proof -
  have f: "filter (\<lambda>time. time > now - W) (requests d) = requests d"
    using assms(3) by (simp add: filter_id_conv)
  have k: "(case sweep of None \<Rightarrow> s | Some clock \<Rightarrow> cleanupOldEntries (now - W) clock s) key
             = Some d"
    using assms(1-3) by (cases sweep) (simp_all add: cleanup_keeps_live)
  show "fst (rateLimit W mx key now sweep s)
           = \<lparr>success = True, limit = mx, remaining = mx - int (length (requests d)) - 1,
              retryAfter = Finite 0, resetAt = now + W\<rparr>"
    using assms(4) by (simp add: rateLimit_def Let_def k f)
  show "snd (rateLimit W mx key now sweep s) key
           = Some \<lparr>requests = requests d @ [now], resetTime = now + W\<rparr>"
    using assms(4) by (simp add: rateLimit_def Let_def k f)
qed

lemma rateLimit_refuse:
  assumes "s key = Some d" and "requests d \<noteq> []"
    and "\<forall>t\<in>set (requests d). now - W < t" and "mx \<le> int (length (requests d))"
  shows "fst (rateLimit W mx key now sweep s)
           = \<lparr>success = False, limit = mx, remaining = 0,
              retryAfter = ceil_seconds (math_min (requests d)) W now,
              resetAt = resetTime d\<rparr>"
    and "snd (rateLimit W mx key now sweep s) key = Some d"
proof -
  have f: "filter (\<lambda>time. time > now - W) (requests d) = requests d"
    using assms(3) by (simp add: filter_id_conv)
  have k: "(case sweep of None \<Rightarrow> s | Some clock \<Rightarrow> cleanupOldEntries (now - W) clock s) key
             = Some d"
    using assms(1-3) by (cases sweep) (simp_all add: cleanup_keeps_live)
  show "fst (rateLimit W mx key now sweep s)
           = \<lparr>success = False, limit = mx, remaining = 0,
              retryAfter = ceil_seconds (math_min (requests d)) W now,
              resetAt = resetTime d\<rparr>"
    using assms(4) by (simp add: rateLimit_def Let_def k f)
  show "snd (rateLimit W mx key now sweep s) key = Some d"
    using assms(4) by (simp add: rateLimit_def Let_def k f)
qed

lemma run_checks_Cons:
  "run_checks (c # cs) s =
     (fst (rateLimit (ck_windowMs c) (ck_max c) (ck_key c) (ck_now c) (ck_sweep c) s)
        # fst (run_checks cs
            (snd (rateLimit (ck_windowMs c) (ck_max c) (ck_key c) (ck_now c) (ck_sweep c) s))),
      snd (run_checks cs
            (snd (rateLimit (ck_windowMs c) (ck_max c) (ck_key c) (ck_now c) (ck_sweep c) s))))"
  by (simp split: prod.splits)


lemma math_min_sorted5:
  assumes "t1 \<le> t2" "t2 \<le> t3" "t3 \<le> t4" "t4 \<le> t5"
  shows "math_min [t1, t2, t3, t4, t5] = Finite t1"
  using assms by (simp add: math_min_def)

lemma advanced_check_analyze:
  "advanced_check ''/api/v1/analyze'' key now sweep
     = \<lparr>ck_windowMs = 900000, ck_max = 5, ck_key = key, ck_now = now, ck_sweep = sweep\<rparr>"
  by (simp add: advanced_check_def limits_def)

text \<open>
  C4.  With the tier of the analyze endpoint (\<open>max = 5\<close>, \<open>windowMs = 900000\<close>), a
  key the store does not know, and six checks of that key at clock readings
  \<open>t1 \<le> ... \<le> t6\<close> with \<open>t6 < t1 + 900000\<close>: the first five checks are admitted
  with \<open>remaining\<close> 4, 3, 2, 1, 0, and the sixth is refused with a positive
  \<open>retryAfter\<close>, namely the seconds until the first admission leaves the window,
  rounded up.  This holds for every content of the store at other keys and for every
  outcome of the random draws \<open>c1, ..., c6\<close>.
\<close>

theorem C4_five_then_refused:
  assumes "s key = None"
    and "t1 \<le> t2" and "t2 \<le> t3" and "t3 \<le> t4" and "t4 \<le> t5" and "t5 \<le> t6"
    and "t6 < t1 + 900000"
  shows "map (\<lambda>d. (success d, remaining d))
           (fst (run_checks
              [advanced_check ''/api/v1/analyze'' key t1 c1,
               advanced_check ''/api/v1/analyze'' key t2 c2,
               advanced_check ''/api/v1/analyze'' key t3 c3,
               advanced_check ''/api/v1/analyze'' key t4 c4,
               advanced_check ''/api/v1/analyze'' key t5 c5,
               advanced_check ''/api/v1/analyze'' key t6 c6] s))
         = [(True, 4), (True, 3), (True, 2), (True, 1), (True, 0), (False, 0)]
       \<and> retryAfter (fst (run_checks
              [advanced_check ''/api/v1/analyze'' key t1 c1,
               advanced_check ''/api/v1/analyze'' key t2 c2,
               advanced_check ''/api/v1/analyze'' key t3 c3,
               advanced_check ''/api/v1/analyze'' key t4 c4,
               advanced_check ''/api/v1/analyze'' key t5 c5,
               advanced_check ''/api/v1/analyze'' key t6 c6] s) ! 5)
         = Finite \<lceil>(of_int (t1 + 900000 - t6) :: rat) / 1000\<rceil>
       \<and> 0 < \<lceil>(of_int (t1 + 900000 - t6) :: rat) / 1000\<rceil>
       \<and> ck_windowMs (advanced_check ''/api/v1/analyze'' key t1 c1) = 900000
       \<and> ck_max (advanced_check ''/api/v1/analyze'' key t1 c1) = 5
       \<and> rateLimitAdvanced ''/api/v1/analyze'' key t1 c1 s = rateLimit 900000 5 key t1 c1 s"
proof -
  define s1 where "s1 = snd (rateLimit 900000 5 key t1 c1 s)"
  define s2 where "s2 = snd (rateLimit 900000 5 key t2 c2 s1)"
  define s3 where "s3 = snd (rateLimit 900000 5 key t3 c3 s2)"
  define s4 where "s4 = snd (rateLimit 900000 5 key t4 c4 s3)"
  define s5 where "s5 = snd (rateLimit 900000 5 key t5 c5 s4)"
  have d1: "fst (rateLimit 900000 5 key t1 c1 s)
      = \<lparr>success = True, limit = 5, remaining = 4, retryAfter = Finite 0, resetAt = t1 + 900000\<rparr>"
    using rateLimit_fresh(1) [where s = s and key = key and mx = 5 and W = 900000 and now = t1 and sweep = c1]
      assms(1) by simp
  have k1: "s1 key = Some \<lparr>requests = [t1], resetTime = t1 + 900000\<rparr>"
    unfolding s1_def
    using rateLimit_fresh(2) [where s = s and key = key and mx = 5 and W = 900000 and now = t1 and sweep = c1]
      assms(1) by simp
  have d2: "fst (rateLimit 900000 5 key t2 c2 s1)
      = \<lparr>success = True, limit = 5, remaining = 3, retryAfter = Finite 0, resetAt = t2 + 900000\<rparr>"
    using rateLimit_admit(1) [where s = s1 and key = key and d = "\<lparr>requests = [t1], resetTime = t1 + 900000\<rparr>"
        and now = t2 and W = 900000 and mx = 5 and sweep = c2] k1 assms by simp
  have k2: "s2 key = Some \<lparr>requests = [t1, t2], resetTime = t2 + 900000\<rparr>"
    unfolding s2_def using rateLimit_admit(2) [where s = s1 and key = key and d = "\<lparr>requests = [t1], resetTime = t1 + 900000\<rparr>"
        and now = t2 and W = 900000 and mx = 5 and sweep = c2] k1 assms by simp
  have d3: "fst (rateLimit 900000 5 key t3 c3 s2)
      = \<lparr>success = True, limit = 5, remaining = 2, retryAfter = Finite 0, resetAt = t3 + 900000\<rparr>"
    using rateLimit_admit(1) [where s = s2 and key = key and d = "\<lparr>requests = [t1, t2], resetTime = t2 + 900000\<rparr>"
        and now = t3 and W = 900000 and mx = 5 and sweep = c3] k2 assms by simp
  have k3: "s3 key = Some \<lparr>requests = [t1, t2, t3], resetTime = t3 + 900000\<rparr>"
    unfolding s3_def using rateLimit_admit(2) [where s = s2 and key = key and d = "\<lparr>requests = [t1, t2], resetTime = t2 + 900000\<rparr>"
        and now = t3 and W = 900000 and mx = 5 and sweep = c3] k2 assms by simp
  have d4: "fst (rateLimit 900000 5 key t4 c4 s3)
      = \<lparr>success = True, limit = 5, remaining = 1, retryAfter = Finite 0, resetAt = t4 + 900000\<rparr>"
    using rateLimit_admit(1) [where s = s3 and key = key and d = "\<lparr>requests = [t1, t2, t3], resetTime = t3 + 900000\<rparr>"
        and now = t4 and W = 900000 and mx = 5 and sweep = c4] k3 assms by simp
  have k4: "s4 key = Some \<lparr>requests = [t1, t2, t3, t4], resetTime = t4 + 900000\<rparr>"
    unfolding s4_def using rateLimit_admit(2) [where s = s3 and key = key and d = "\<lparr>requests = [t1, t2, t3], resetTime = t3 + 900000\<rparr>"
        and now = t4 and W = 900000 and mx = 5 and sweep = c4] k3 assms by simp
  have d5: "fst (rateLimit 900000 5 key t5 c5 s4)
      = \<lparr>success = True, limit = 5, remaining = 0, retryAfter = Finite 0, resetAt = t5 + 900000\<rparr>"
    using rateLimit_admit(1) [where s = s4 and key = key and d = "\<lparr>requests = [t1, t2, t3, t4], resetTime = t4 + 900000\<rparr>"
        and now = t5 and W = 900000 and mx = 5 and sweep = c5] k4 assms by simp
  have k5: "s5 key = Some \<lparr>requests = [t1, t2, t3, t4, t5], resetTime = t5 + 900000\<rparr>"
    unfolding s5_def using rateLimit_admit(2) [where s = s4 and key = key and d = "\<lparr>requests = [t1, t2, t3, t4], resetTime = t4 + 900000\<rparr>"
        and now = t5 and W = 900000 and mx = 5 and sweep = c5] k4 assms by simp
  have d6: "fst (rateLimit 900000 5 key t6 c6 s5)
      = \<lparr>success = False, limit = 5, remaining = 0,
         retryAfter = Finite \<lceil>(of_int (t1 + 900000 - t6) :: rat) / 1000\<rceil>,
         resetAt = t5 + 900000\<rparr>"
    using rateLimit_refuse(1) [where s = s5 and key = key and d = "\<lparr>requests = [t1, t2, t3, t4, t5], resetTime = t5 + 900000\<rparr>"
        and now = t6 and W = 900000 and mx = 5 and sweep = c6] k5 assms
    by (simp add: math_min_sorted5 ceil_seconds_def)
  have run: "fst (run_checks
              [advanced_check ''/api/v1/analyze'' key t1 c1,
               advanced_check ''/api/v1/analyze'' key t2 c2,
               advanced_check ''/api/v1/analyze'' key t3 c3,
               advanced_check ''/api/v1/analyze'' key t4 c4,
               advanced_check ''/api/v1/analyze'' key t5 c5,
               advanced_check ''/api/v1/analyze'' key t6 c6] s)
      = [fst (rateLimit 900000 5 key t1 c1 s), fst (rateLimit 900000 5 key t2 c2 s1),
         fst (rateLimit 900000 5 key t3 c3 s2), fst (rateLimit 900000 5 key t4 c4 s3),
         fst (rateLimit 900000 5 key t5 c5 s4), fst (rateLimit 900000 5 key t6 c6 s5)]"
    unfolding s1_def s2_def s3_def s4_def s5_def advanced_check_analyze
    by (simp add: run_checks_Cons del: run_checks.simps(2))
  have pos: "0 < \<lceil>(of_int (t1 + 900000 - t6) :: rat) / 1000\<rceil>"
    using assms(7) by simp
  show ?thesis
    unfolding run d1 d2 d3 d4 d5 d6
    using pos by (simp add: advanced_check_analyze rateLimitAdvanced_def limits_def)
qed


text \<open>
  The theorem at an empty store and checks one second apart, the third with a cleanup.
\<close>

theorem C4_five_then_refused_witness:
  "map (\<lambda>d. (success d, remaining d))
     (fst (run_checks
        [advanced_check ''/api/v1/analyze'' ''10.0.0.1'' 0 None,
         advanced_check ''/api/v1/analyze'' ''10.0.0.1'' 1000 None,
         advanced_check ''/api/v1/analyze'' ''10.0.0.1'' 2000 (Some (\<lambda>k. 2000)),
         advanced_check ''/api/v1/analyze'' ''10.0.0.1'' 3000 None,
         advanced_check ''/api/v1/analyze'' ''10.0.0.1'' 4000 None,
         advanced_check ''/api/v1/analyze'' ''10.0.0.1'' 5000 None] (\<lambda>k. None)))
   = [(True, 4), (True, 3), (True, 2), (True, 1), (True, 0), (False, 0)]
   \<and> retryAfter (fst (run_checks
        [advanced_check ''/api/v1/analyze'' ''10.0.0.1'' 0 None,
         advanced_check ''/api/v1/analyze'' ''10.0.0.1'' 1000 None,
         advanced_check ''/api/v1/analyze'' ''10.0.0.1'' 2000 (Some (\<lambda>k. 2000)),
         advanced_check ''/api/v1/analyze'' ''10.0.0.1'' 3000 None,
         advanced_check ''/api/v1/analyze'' ''10.0.0.1'' 4000 None,
         advanced_check ''/api/v1/analyze'' ''10.0.0.1'' 5000 None] (\<lambda>k. None)) ! 5)
   = Finite 895"
  using C4_five_then_refused [where s = "\<lambda>k. None" and key = "''10.0.0.1''"
      and ?t1.0 = 0 and ?t2.0 = 1000 and ?t3.0 = 2000 and ?t4.0 = 3000 and ?t5.0 = 4000
      and ?t6.0 = 5000 and ?c1.0 = None and ?c2.0 = None and ?c3.0 = "Some (\<lambda>k. 2000)"
      and ?c4.0 = None and ?c5.0 = None and ?c6.0 = None]
  by (simp del: run_checks.simps)

subsection \<open>Claim C3: the limit across keys, tiers and cleanups\<close>

text \<open>
  C3 does not hold of the code.  \<^verbatim>\<open>cleanupOldEntries\<close> prunes the instants of every
  key with the cutoff of the check that triggered it, \<open>now - windowMs\<close> of that
  check's tier.  Five admissions of key \<open>A\<close> on the analyze tier (five per 900,000 ms)
  followed by one check of key \<open>B\<close> on the health tier (window 60,000 ms) whose random
  draw runs the cleanup leave \<open>A\<close> with no recorded instant, and a sixth check of
  \<open>A\<close> is admitted 100,001 ms after the first.  Without the cleanup the same sixth
  check is refused.
\<close>

theorem C3_sweep_forgets_admissions:
  "map success (fst (run_checks
      [advanced_check ''/api/v1/analyze'' ''A'' 0 None,
       advanced_check ''/api/v1/analyze'' ''A'' 1 None,
       advanced_check ''/api/v1/analyze'' ''A'' 2 None,
       advanced_check ''/api/v1/analyze'' ''A'' 3 None,
       advanced_check ''/api/v1/analyze'' ''A'' 4 None,
       advanced_check ''/api/v1/health'' ''B'' 100000 (Some (\<lambda>k. 100000)),
       advanced_check ''/api/v1/analyze'' ''A'' 100001 None] (\<lambda>k. None)))
   = [True, True, True, True, True, True, True]
   \<and> map success (fst (run_checks
      [advanced_check ''/api/v1/analyze'' ''A'' 0 None,
       advanced_check ''/api/v1/analyze'' ''A'' 1 None,
       advanced_check ''/api/v1/analyze'' ''A'' 2 None,
       advanced_check ''/api/v1/analyze'' ''A'' 3 None,
       advanced_check ''/api/v1/analyze'' ''A'' 4 None,
       advanced_check ''/api/v1/health'' ''B'' 100000 None,
       advanced_check ''/api/v1/analyze'' ''A'' 100001 None] (\<lambda>k. None)))
   = [True, True, True, True, True, True, False]"
  by code_simp

subsection \<open>The limit when every check uses one window length\<close>

text \<open>
  When all checks of a run pass the same \<open>windowMs\<close> and the clock does not go back,
  the store holds, above every cutoff still to come, exactly the instants at which the
  key was admitted.  So whenever a check is admitted, the admissions of its key within
  the trailing window \<open>(now - windowMs, now]\<close>, this one included, number at most
  \<open>max\<close>, whatever cleanups ran and whatever other keys were checked.
\<close>

lemma stored_cleanup:
  "stored (cleanupOldEntries cutoff clock s) k = filter (\<lambda>time. time > cutoff) (stored s k)"
  by (simp add: stored_def cleanupOldEntries_def Let_def split: option.splits)

lemma filter_above_twice:
  fixes c cutoff :: int
  assumes "cutoff \<le> c"
  shows "filter (\<lambda>a. cutoff < a \<and> c < a) xs = filter (\<lambda>a. c < a) xs"
  by (rule filter_cong) (use assms in auto)

lemma stored_swept:
  assumes "now - W \<le> c"
  shows "filter (\<lambda>a. c < a)
           (stored (case sweep of None \<Rightarrow> s | Some clock \<Rightarrow> cleanupOldEntries (now - W) clock s) k)
         = filter (\<lambda>a. c < a) (stored s k)"
  using assms by (cases sweep) (simp_all add: stored_cleanup filter_above_twice)

lemma rateLimit_stored:
  assumes "now - W \<le> c"
  shows "filter (\<lambda>a. c < a) (stored (snd (rateLimit W mx key now sweep s)) k)
         = filter (\<lambda>a. c < a) (stored s k)
           @ (if k = key \<and> success (fst (rateLimit W mx key now sweep s))
              then filter (\<lambda>a. c < a) [now] else [])"
proof -
  define swept where
    "swept = (case sweep of None \<Rightarrow> s | Some clock \<Rightarrow> cleanupOldEntries (now - W) clock s)"
  have sw: "filter (\<lambda>a. c < a) (stored swept j) = filter (\<lambda>a. c < a) (stored s j)" for j
    unfolding swept_def using assms by (rule stored_swept)
  have st: "requests (case swept key of None \<Rightarrow> \<lparr>requests = [], resetTime = now + W\<rparr>
                      | Some data \<Rightarrow> data) = stored swept key"
    by (simp add: stored_def split: option.splits)
  have kept: "filter (\<lambda>a. c < a) (filter (\<lambda>time. now - W < time) (stored swept key))
                = filter (\<lambda>a. c < a) (stored s key)"
    using assms sw [of key] by (simp add: filter_above_twice)
  show ?thesis
  proof (cases "k = key")
    case True
    then show ?thesis
      using kept
      by (simp add: rateLimit_def Let_def swept_def [symmetric] st stored_def [of "_(_ \<mapsto> _)"])
  next
    case False
    then show ?thesis
      using sw [of k]
      by (simp add: rateLimit_def Let_def swept_def [symmetric] stored_def [of "_(_ \<mapsto> _)"]
          stored_def [of swept, symmetric])
  qed
qed

lemma rateLimit_success:
  assumes "success (fst (rateLimit W mx key now sweep s))"
  shows "int (length (filter (\<lambda>a. now - W < a) (stored s key))) < mx"
proof -
  define swept where
    "swept = (case sweep of None \<Rightarrow> s | Some clock \<Rightarrow> cleanupOldEntries (now - W) clock s)"
  have sw: "filter (\<lambda>a. now - W < a) (stored swept key) = filter (\<lambda>a. now - W < a) (stored s key)"
    unfolding swept_def by (rule stored_swept) simp
  have st: "requests (case swept key of None \<Rightarrow> \<lparr>requests = [], resetTime = now + W\<rparr>
                      | Some data \<Rightarrow> data) = stored swept key"
    by (simp add: stored_def split: option.splits)
  show ?thesis
    using assms sw
    by (simp add: rateLimit_def Let_def swept_def [symmetric] st split: if_splits)
qed


lemma run_checks_length: "length (fst (run_checks cs s)) = length cs"
  by (induction cs arbitrary: s) (simp_all add: run_checks_Cons del: run_checks.simps(2))

lemma run_checks_snoc:
  "run_checks (cs @ [x]) s =
     (fst (run_checks cs s)
        @ [fst (rateLimit (ck_windowMs x) (ck_max x) (ck_key x) (ck_now x) (ck_sweep x)
                  (snd (run_checks cs s)))],
      snd (rateLimit (ck_windowMs x) (ck_max x) (ck_key x) (ck_now x) (ck_sweep x)
             (snd (run_checks cs s))))"
  by (induction cs arbitrary: s) (simp_all add: run_checks_Cons del: run_checks.simps(2))

lemma admissions_snoc:
  "length cs = length ds \<Longrightarrow>
     admissions k (cs @ [x]) (ds @ [d])
       = admissions k cs ds @ (if ck_key x = k \<and> success d then [ck_now x] else [])"
  by (induction k cs ds rule: admissions.induct) simp_all

lemma stored_tracks_admissions:
  assumes "\<forall>x\<in>set cs. ck_windowMs x = W" and "\<forall>x\<in>set cs. ck_now x - W \<le> c"
  shows "filter (\<lambda>a. c < a) (stored (snd (run_checks cs (\<lambda>k. None))) k)
         = filter (\<lambda>a. c < a) (admissions k cs (fst (run_checks cs (\<lambda>k. None))))"
  using assms
proof (induction cs rule: rev_induct)
  case Nil
  show ?case by (simp add: stored_def)
next
  case (snoc x cs)
  have ih: "filter (\<lambda>a. c < a) (stored (snd (run_checks cs (\<lambda>k. None))) k)
         = filter (\<lambda>a. c < a) (admissions k cs (fst (run_checks cs (\<lambda>k. None))))"
    using snoc by simp
  have w: "ck_windowMs x = W" and b: "ck_now x - W \<le> c"
    using snoc.prems by simp_all
  show ?case
    unfolding run_checks_snoc
    using rateLimit_stored [OF b, of "ck_max x" "ck_key x" "ck_sweep x"
        "snd (run_checks cs (\<lambda>k. None))" k] ih
    by (auto simp: admissions_snoc run_checks_length w)
qed

lemma uniform_window_limit:
  assumes "\<forall>c\<in>set (cs @ [x]). ck_windowMs c = W"
    and "\<forall>c\<in>set cs. ck_now c \<le> ck_now x"
    and "success (last (fst (run_checks (cs @ [x]) (\<lambda>k. None))))"
  shows "int (length (filter (\<lambda>a. ck_now x - W < a)
                (admissions (ck_key x) (cs @ [x]) (fst (run_checks (cs @ [x]) (\<lambda>k. None))))))
         \<le> ck_max x"
proof -
  define s1 where "s1 = snd (run_checks cs (\<lambda>k. None))"
  define d where
    "d = fst (rateLimit (ck_windowMs x) (ck_max x) (ck_key x) (ck_now x) (ck_sweep x) s1)"
  have w: "ck_windowMs x = W" using assms(1) by simp
  have suc: "success d"
    using assms(3) unfolding run_checks_snoc d_def s1_def by simp
  have before: "int (length (filter (\<lambda>a. ck_now x - W < a) (stored s1 (ck_key x)))) < ck_max x"
    using rateLimit_success [of W "ck_max x" "ck_key x" "ck_now x" "ck_sweep x" s1] suc
    unfolding d_def w by simp
  have inv: "filter (\<lambda>a. ck_now x - W < a) (stored s1 (ck_key x))
           = filter (\<lambda>a. ck_now x - W < a)
               (admissions (ck_key x) cs (fst (run_checks cs (\<lambda>k. None))))"
    unfolding s1_def
    using assms(1,2) by (intro stored_tracks_admissions) auto
  have "admissions (ck_key x) (cs @ [x]) (fst (run_checks (cs @ [x]) (\<lambda>k. None)))
        = admissions (ck_key x) cs (fst (run_checks cs (\<lambda>k. None))) @ [ck_now x]"
    unfolding run_checks_snoc
    using suc by (simp add: admissions_snoc run_checks_length d_def s1_def)
  then show ?thesis
    using before inv by simp
qed

subsection \<open>Claim C10: the lower size bound of request validation\<close>

lemma short_text_invalid:
  assumes "documentText b = Str s" and "s \<noteq> []" and "length s < 100"
  shows "\<not> valid (validateRequest (Some b))"
  using assms by (simp add: validateRequest_def text_errors_def)

lemma short_structure_invalid:
  assumes "\<not> truthy (documentText b)" and "documentStructure b = Struct d"
    and "fullText d = Str s" and "length s < 100"
  shows "\<not> valid (validateRequest (Some b))"
  using assms by (simp add: validateRequest_def structure_errors_def)

lemma handler_invalid:
  assumes "\<not> valid (validateRequest (body req))" and "http_method req = ''POST''"
  shows "handler analyze req = (400, [])"
  using assms by (simp add: handler_def)

text \<open>
  C10 as stated fails: \<^verbatim>\<open>validateRequest\<close> looks at the structure only when the
  request has no plain text, so a request with a plain text of valid size and a
  structure whose full text is shorter than 100 units is classified valid; the handler
  then analyses the structure, which is truthy.  An empty plain text counts as absent:
  with a structure of valid size the request is classified valid as well.
\<close>

theorem C10_counterexample:
  "length ''short'' < 100
   \<and> valid (validateRequest (body mixed_request))
   \<and> handler (analyzeDocument_v2 (\<lambda>d. Inr ''{}'') (\<lambda>t. Some \<lparr>ar_summary = None, ar_issues = None\<rparr>)
        (\<lambda>k. ''new'')) mixed_request
     = (200, [\<lparr>fullText = Str ''short'', paragraphs = Paragraphs []\<rparr>])
   \<and> valid (validateRequest (Some \<lparr>documentText = Str [],
        documentStructure = Struct \<lparr>fullText = Str long_text, paragraphs = Paragraphs []\<rparr>,
        analysisMode = Nullish, userId = Nullish\<rparr>))"
proof -
  have v: "valid (validateRequest (body mixed_request))"
    by (simp add: mixed_request_def validateRequest_def text_errors_def mode_errors_def
        user_errors_def long_text_facts)
  have a: "analyzeDocument_v2 (\<lambda>d. Inr ''{}'') (\<lambda>t. Some \<lparr>ar_summary = None, ar_issues = None\<rparr>)
        (\<lambda>k. ''new'') \<lparr>fullText = Str ''short'', paragraphs = Paragraphs []\<rparr>
      = (Inr (validateAndProcessResults_v2 (\<lambda>k. ''new'') \<lparr>ar_summary = None, ar_issues = None\<rparr>
            \<lparr>fullText = Str ''short'', paragraphs = Paragraphs []\<rparr>),
         [\<lparr>fullText = Str ''short'', paragraphs = Paragraphs []\<rparr>])"
    by (simp add: analyzeDocument_v2_def analyzeDocument_try_v2_def)
  have e: "valid (validateRequest (Some \<lparr>documentText = Str [],
        documentStructure = Struct \<lparr>fullText = Str long_text, paragraphs = Paragraphs []\<rparr>,
        analysisMode = Nullish, userId = Nullish\<rparr>))"
    by (simp add: validateRequest_def structure_errors_def mode_errors_def user_errors_def
        long_text_facts)
  show ?thesis
    using v e by (simp add: handler_def mixed_request_def as_document_def a)
qed

text \<open>
  C10, amended.  A request whose \<^verbatim>\<open>documentText\<close> is a non-empty string shorter than
  100 units is classified invalid, and so is a request without a truthy
  \<^verbatim>\<open>documentText\<close> whose \<^verbatim>\<open>documentStructure\<close> is an object with a
  \<^verbatim>\<open>fullText\<close> string shorter than 100 units.  The handler answers such a POST
  request with status 400 and calls no analysis.
\<close>

theorem C10_short_documents:
  "(documentText b = Str s \<and> s \<noteq> [] \<and> length s < 100
      \<longrightarrow> \<not> valid (validateRequest (Some b))
        \<and> handler analyze \<lparr>http_method = ''POST'', body = Some b\<rparr> = (400, []))
   \<and> (\<not> truthy (documentText b) \<and> documentStructure b = Struct d
        \<and> fullText d = Str s \<and> length s < 100
      \<longrightarrow> \<not> valid (validateRequest (Some b))
        \<and> handler analyze \<lparr>http_method = ''POST'', body = Some b\<rparr> = (400, []))"
  by (simp add: short_text_invalid short_structure_invalid handler_invalid)

text \<open>
  The amended theorem at a plain text of nine units and at a structure whose full text
  has five units.
\<close>

theorem C10_short_documents_witness:
  "\<not> valid (validateRequest (Some \<lparr>documentText = Str ''too short'', documentStructure = NoStruct,
        analysisMode = Nullish, userId = Nullish\<rparr>))
   \<and> handler (analyzeDocument_v2 (\<lambda>d. Inr ''{}'') (\<lambda>t. None) (\<lambda>k. ''new''))
        \<lparr>http_method = ''POST'',
         body = Some \<lparr>documentText = Str ''too short'', documentStructure = NoStruct,
                       analysisMode = Nullish, userId = Nullish\<rparr>\<rparr> = (400, [])
   \<and> \<not> valid (validateRequest (Some \<lparr>documentText = Nullish,
        documentStructure = Struct \<lparr>fullText = Str ''short'', paragraphs = Paragraphs []\<rparr>,
        analysisMode = Nullish, userId = Nullish\<rparr>))
   \<and> handler (analyzeDocument_v2 (\<lambda>d. Inr ''{}'') (\<lambda>t. None) (\<lambda>k. ''new''))
        \<lparr>http_method = ''POST'',
         body = Some \<lparr>documentText = Nullish,
           documentStructure = Struct \<lparr>fullText = Str ''short'', paragraphs = Paragraphs []\<rparr>,
           analysisMode = Nullish, userId = Nullish\<rparr>\<rparr> = (400, [])"
proof -
  have a: "\<not> valid (validateRequest (Some \<lparr>documentText = Str ''too short'', documentStructure = NoStruct,
        analysisMode = Nullish, userId = Nullish\<rparr>))
   \<and> handler (analyzeDocument_v2 (\<lambda>d. Inr ''{}'') (\<lambda>t. None) (\<lambda>k. ''new''))
        \<lparr>http_method = ''POST'',
         body = Some \<lparr>documentText = Str ''too short'', documentStructure = NoStruct,
                       analysisMode = Nullish, userId = Nullish\<rparr>\<rparr> = (400, [])"
    using C10_short_documents [where b = "\<lparr>documentText = Str ''too short'',
        documentStructure = NoStruct, analysisMode = Nullish, userId = Nullish\<rparr>"
        and s = "''too short''"
        and analyze = "analyzeDocument_v2 (\<lambda>d. Inr ''{}'') (\<lambda>t. None) (\<lambda>k. ''new'')"]
    by simp
  have b: "\<not> valid (validateRequest (Some \<lparr>documentText = Nullish,
        documentStructure = Struct \<lparr>fullText = Str ''short'', paragraphs = Paragraphs []\<rparr>,
        analysisMode = Nullish, userId = Nullish\<rparr>))
   \<and> handler (analyzeDocument_v2 (\<lambda>d. Inr ''{}'') (\<lambda>t. None) (\<lambda>k. ''new''))
        \<lparr>http_method = ''POST'',
         body = Some \<lparr>documentText = Nullish,
           documentStructure = Struct \<lparr>fullText = Str ''short'', paragraphs = Paragraphs []\<rparr>,
           analysisMode = Nullish, userId = Nullish\<rparr>\<rparr> = (400, [])"
    using C10_short_documents [where b = "\<lparr>documentText = Nullish,
        documentStructure = Struct \<lparr>fullText = Str ''short'', paragraphs = Paragraphs []\<rparr>,
        analysisMode = Nullish, userId = Nullish\<rparr>"
        and s = "''short''" and d = "\<lparr>fullText = Str ''short'', paragraphs = Paragraphs []\<rparr>"
        and analyze = "analyzeDocument_v2 (\<lambda>d. Inr ''{}'') (\<lambda>t. None) (\<lambda>k. ''new'')"]
    by simp
  show ?thesis using a b by simp
qed

end
